theory Spec2Isabelle
  imports Main "HOL-Library.Char_ord" "HOL-Library.List_Lexorder" "HOL-Library.Sublist"
begin

section \<open>Duplicate tab closer: the fuzzy URL matcher\<close>

text \<open>
  The engine lives twice in the repository: as the module \<^verbatim>\<open>src/lib/fuzzy-matcher.js\<close>
  and inlined at the top of the popup script (\<^verbatim>\<open>src/unnamed/part_000\<close>). Both are
  embedded below. JavaScript strings are modelled as lists of 8-bit characters, so a string
  whose code units are all below 256 is represented exactly; \<^verbatim>\<open>length\<close>, indexing and
  \<^verbatim>\<open>===\<close> work unit by unit in the source and element by element here.
\<close>

subsection \<open>Data\<close>

text \<open>
  What the engine reads of a platform \<^verbatim>\<open>URL\<close> object. The constructor \<^verbatim>\<open>new URL(s)\<close>
  belongs to the browser, not to the repository: every function below that parses takes it as
  the parameter \<open>newURL\<close>, with \<open>None\<close> for the \<^verbatim>\<open>TypeError\<close> it throws.
  \<open>url_searchParams\<close> is the sequence \<^verbatim>\<open>url.searchParams.entries()\<close> iterates.
\<close>

record URL =
  url_protocol :: string
  url_hostname :: string
  url_port :: string
  url_pathname :: string
  url_search :: string
  url_hash :: string
  url_searchParams :: "(string \<times> string) list"

text \<open>
  A plain object with string values, as the list of its own properties in the order
  \<^verbatim>\<open>Object.keys\<close>, \<^verbatim>\<open>Object.entries\<close> and \<^verbatim>\<open>JSON.stringify\<close> visit them.
\<close>

type_synonym js_object = "(string \<times> string) list"

text \<open>The object literal \<^verbatim>\<open>parseUrl\<close> returns.\<close>

record ParsedUrl =
  protocol :: string
  hostname :: string
  port :: string
  pathname :: string
  search :: string
  hash :: string
  params :: js_object
  original :: string

text \<open>
  A tab as the host hands it over. \<^verbatim>\<open>url\<close> and \<^verbatim>\<open>title\<close> may be missing
  (\<^verbatim>\<open>undefined\<close>), which is \<open>None\<close>.
\<close>

record Tab =
  tab_id :: int
  url :: "string option"
  title :: "string option"

record GoogleDoc =
  docId :: string
  docType :: string

record Similarity =
  similar :: bool
  score :: int
  reason :: "string option"

record SimilarPair =
  tab1 :: Tab
  tab2 :: Tab
  pair_score :: int
  pair_reason :: "string option"

record DuplicateGroup =
  normalizedUrl :: string
  tabs :: "Tab list"
  count :: nat

record AnalysisResult =
  exactDuplicates :: "DuplicateGroup list"
  similarTabs :: "SimilarPair list"
  totalDuplicates :: int
  totalSimilar :: nat

subsection \<open>JavaScript primitives the engine uses\<close>

text \<open>Truthiness of a possibly missing string: \<^verbatim>\<open>undefined\<close> and \<^verbatim>\<open>''\<close> are falsy.\<close>

definition truthy :: "string option \<Rightarrow> bool" where
  "truthy s = (case s of None \<Rightarrow> False | Some v \<Rightarrow> v \<noteq> [])"

text \<open>The string conversion applied when a possibly missing value is used as a string.\<close>

definition ToString :: "string option \<Rightarrow> string" where
  "ToString s = (case s of None \<Rightarrow> ''undefined'' | Some v \<Rightarrow> v)"

text \<open>
  \<^verbatim>\<open>String.prototype.toLowerCase\<close> on 8-bit units: \<^verbatim>\<open>A\<close> to \<^verbatim>\<open>Z\<close> and the
  Latin-1 capitals \<^verbatim>\<open>U+00C0\<close> to \<^verbatim>\<open>U+00DE\<close> (the multiplication sign \<^verbatim>\<open>U+00D7\<close> apart)
  move up by 32.
\<close>

definition lower_char :: "char \<Rightarrow> char" where
  "lower_char c =
     (let n = (of_char c :: nat)
      in if (65 \<le> n \<and> n \<le> 90) \<or> (192 \<le> n \<and> n \<le> 222 \<and> n \<noteq> 215)
         then char_of (n + 32) else c)"

definition toLowerCase :: "string \<Rightarrow> string" where
  "toLowerCase s = map lower_char s"

text \<open>\<^verbatim>\<open>s.startsWith(p)\<close> is \<^const>\<open>prefix\<close>; \<^verbatim>\<open>s.includes(p)\<close> looks at every position.\<close>

fun js_includes :: "string \<Rightarrow> string \<Rightarrow> bool" where
  "js_includes [] p = (p = [])"
| "js_includes (c # s) p = (prefix p (c # s) \<or> js_includes s p)"

text \<open>\<^verbatim>\<open>h.replace(/^www\./, '')\<close>: one leading \<^verbatim>\<open>www.\<close> goes, nothing else.\<close>

definition strip_www :: "string \<Rightarrow> string" where
  "strip_www h = (if prefix ''www.'' h then drop 4 h else h)"

text \<open>\<^verbatim>\<open>p.replace(/\/+$/, '')\<close>: the run of slashes at the end of the string goes.\<close>

definition strip_trailing_slashes :: "string \<Rightarrow> string" where
  "strip_trailing_slashes p = rev (dropWhile (\<lambda>c. c = CHR ''/'') (rev p))"

text \<open>\<^verbatim>\<open>xs.join(sep)\<close>.\<close>

fun join :: "string \<Rightarrow> string list \<Rightarrow> string" where
  "join sep [] = []"
| "join sep [x] = x"
| "join sep (x # y # ys) = x @ sep @ join sep (y # ys)"

text \<open>Decimal rendering of a number that holds an integer, as a template literal prints it.\<close>

fun digits :: "nat \<Rightarrow> string" where
  "digits n = (if n < 10 then [char_of (48 + n)] else digits (n div 10) @ [char_of (48 + n mod 10)])"

declare digits.simps [simp del]

definition show_int :: "int \<Rightarrow> string" where
  "show_int i = (if i < 0 then CHR ''-'' # digits (nat (- i)) else digits (nat i))"

subsubsection \<open>Numbers\<close>

text \<open>
  A JavaScript number is an IEEE 754 double. The numbers the engine computes with are not
  negative and stay far below \<open>2^53\<close>; such a double is kept here as the fraction
  \<open>(n, d)\<close> it is equal to, with \<open>d\<close> a power of two. \<open>to_double p q\<close> is the double
  nearest to \<open>p / q\<close>: the fraction is scaled until its integer part has 53 bits and then
  rounded to an integer, a tie going to the even one. Every arithmetic operation is the exact
  operation followed by this rounding.
\<close>

type_synonym double = "int \<times> int"

function scale_up :: "int \<Rightarrow> int \<Rightarrow> int \<Rightarrow> int \<times> int" where
  "scale_up p q d =
     (if p \<le> 0 \<or> q \<le> 0 \<or> q * 2 ^ 52 \<le> p then (p, d) else scale_up (2 * p) q (2 * d))"
  by pat_completeness auto
termination
  by (relation "measure (\<lambda>(p, q, d). nat (q * 2 ^ 52 - p))") auto

declare scale_up.simps [simp del]

definition round_half_even :: "int \<Rightarrow> int \<Rightarrow> int" where
  "round_half_even p q =
     (let a = p div q; r = p mod q
      in if 2 * r < q then a else if q < 2 * r then a + 1 else if even a then a else a + 1)"

definition to_double :: "int \<Rightarrow> int \<Rightarrow> double" where
  "to_double p q = (let (p', d) = scale_up p q 1 in (round_half_even p' q, d))"

definition double_of_int :: "int \<Rightarrow> double" where
  "double_of_int i = (i, 1)"

definition double_add :: "double \<Rightarrow> double \<Rightarrow> double" where
  "double_add a b = to_double (fst a * snd b + fst b * snd a) (snd a * snd b)"

definition double_sub :: "double \<Rightarrow> double \<Rightarrow> double" where
  "double_sub a b = to_double (fst a * snd b - fst b * snd a) (snd a * snd b)"

definition double_mul :: "double \<Rightarrow> double \<Rightarrow> double" where
  "double_mul a b = to_double (fst a * fst b) (snd a * snd b)"

definition double_div :: "double \<Rightarrow> double \<Rightarrow> double" where
  "double_div a b = to_double (fst a * snd b) (snd a * fst b)"

text \<open>
  \<^verbatim>\<open>Math.round(x)\<close> is the integer nearest to \<open>x\<close>, the upper one of two that are equally
  near: \<open>\<lfloor>x + 1/2\<rfloor>\<close>, computed exactly.
\<close>

definition Math_round :: "double \<Rightarrow> int" where
  "Math_round a = (2 * fst a + snd a) div (2 * snd a)"

subsubsection \<open>Property order of plain objects\<close>

text \<open>
  A key is an array index when it is the canonical decimal form of a number below
  \<open>2^32 - 1\<close>. The own keys of an ordinary object come with the array indices first, in
  ascending numeric order, and the other strings after them in the order they were created.
\<close>

definition is_digit :: "char \<Rightarrow> bool" where
  "is_digit c = (let n = (of_char c :: nat) in 48 \<le> n \<and> n \<le> 57)"

definition digit_val :: "char \<Rightarrow> int" where
  "digit_val c = of_char c - 48"

definition decimal_val :: "string \<Rightarrow> int" where
  "decimal_val k = foldl (\<lambda>a c. 10 * a + digit_val c) 0 k"

definition is_array_index :: "string \<Rightarrow> bool" where
  "is_array_index k =
     (k \<noteq> [] \<and> list_all is_digit k \<and> (k = ''0'' \<or> hd k \<noteq> CHR ''0'')
      \<and> length k \<le> 10 \<and> decimal_val k < 4294967295)"

text \<open>Where a new key goes: \<open>True\<close> when it has to come before the existing key \<open>k'\<close>.\<close>

definition key_before :: "string \<Rightarrow> string \<Rightarrow> bool" where
  "key_before k k' =
     (is_array_index k \<and> (\<not> is_array_index k' \<or> decimal_val k < decimal_val k'))"

text \<open>
  Defining the data property \<open>k\<close> with value \<open>v\<close>: an existing property keeps its place and
  takes the new value, a new one is created at its place in the key order.
\<close>

fun obj_insert :: "js_object \<Rightarrow> string \<Rightarrow> string \<Rightarrow> js_object" where
  "obj_insert [] k v = [(k, v)]"
| "obj_insert ((k', v') # obj) k v =
     (if key_before k k' then (k, v) # (k', v') # obj else (k', v') # obj_insert obj k v)"

definition obj_define :: "js_object \<Rightarrow> string \<Rightarrow> string \<Rightarrow> js_object" where
  "obj_define obj k v =
     (if k \<in> set (map fst obj) then map (\<lambda>(k', v'). if k' = k then (k', v) else (k', v')) obj
      else obj_insert obj k v)"

text \<open>\<^verbatim>\<open>Object.fromEntries(entries)\<close>: one property definition per entry, in order.\<close>

definition fromEntries :: "(string \<times> string) list \<Rightarrow> js_object" where
  "fromEntries es = foldl (\<lambda>obj (k, v). obj_define obj k v) [] es"

text \<open>\<^verbatim>\<open>obj[k]\<close> for a key taken from \<^verbatim>\<open>Object.keys(obj)\<close>.\<close>

definition obj_get :: "js_object \<Rightarrow> string \<Rightarrow> string" where
  "obj_get obj k = ToString (map_of obj k)"

subsubsection \<open>\<^verbatim>\<open>JSON.stringify\<close> of an object of strings\<close>

definition hex_digit :: "nat \<Rightarrow> char" where
  "hex_digit n = (if n < 10 then char_of (48 + n) else char_of (87 + n))"

definition json_escape :: "char \<Rightarrow> string" where
  "json_escape c =
     (let n = (of_char c :: nat)
      in if c = CHR 0x22 then [CHR 0x5C, CHR 0x22]
         else if c = CHR 0x5C then [CHR 0x5C, CHR 0x5C]
         else if n = 8 then [CHR 0x5C, CHR ''b'']
         else if n = 9 then [CHR 0x5C, CHR ''t'']
         else if n = 10 then [CHR 0x5C, CHR ''n'']
         else if n = 12 then [CHR 0x5C, CHR ''f'']
         else if n = 13 then [CHR 0x5C, CHR ''r'']
         else if n < 32 then [CHR 0x5C, CHR ''u'', CHR ''0'', CHR ''0'', hex_digit (n div 16), hex_digit (n mod 16)]
         else [c])"

definition json_quote :: "string \<Rightarrow> string" where
  "json_quote s = CHR 0x22 # concat (map json_escape s) @ [CHR 0x22]"

definition JSON_stringify :: "js_object \<Rightarrow> string" where
  "JSON_stringify obj =
     ''{'' @ join '','' (map (\<lambda>(k, v). json_quote k @ '':'' @ json_quote v) obj) @ ''}''"

subsection \<open>Tables\<close>

text \<open>
  Each entry of \<^verbatim>\<open>GOOGLE_WORKSPACE_PATTERNS\<close> is a regular expression of the shape
  \<^verbatim>\<open>/^literal([^\/]+)/\<close>; the table keeps the literal and the type. Such an expression
  matches when the subject starts with the literal and at least one character other than a
  slash follows; its group is the longest run of such characters.
\<close>

definition GOOGLE_WORKSPACE_PATTERNS :: "(string \<times> string) list" where
  "GOOGLE_WORKSPACE_PATTERNS =
     [(''docs.google.com/document/d/'', ''doc''),
      (''docs.google.com/spreadsheets/d/'', ''sheet''),
      (''docs.google.com/presentation/d/'', ''slides'')]"

definition match_pattern :: "string \<Rightarrow> string \<Rightarrow> string option" where
  "match_pattern lit s =
     (if prefix lit s
      then (let g = takeWhile (\<lambda>c. c \<noteq> CHR ''/'') (drop (length lit) s)
            in if g = [] then None else Some g)
      else None)"

definition TRACKING_PARAMS :: "string list" where
  "TRACKING_PARAMS =
     [''utm_source'', ''utm_medium'', ''utm_campaign'', ''utm_term'', ''utm_content'',
      ''fbclid'', ''gclid'', ''msclkid'', ''dclid'',
      ''ref'', ''source'', ''mc_cid'', ''mc_eid'',
      ''_ga'', ''_gl'', ''yclid'', ''wickedid'',
      ''twclid'', ''igshid'', ''zanpid'']"

subsection \<open>The module \<^verbatim>\<open>src/lib/fuzzy-matcher.js\<close>\<close>

text \<open>
  \<^verbatim>\<open>parseUrl\<close>, \<^verbatim>\<open>normalizeUrl\<close>, \<^verbatim>\<open>levenshteinDistance\<close>, \<^verbatim>\<open>getNonTrackingParams\<close>
  and the two tables are the same statements in the module and in the popup script (the module
  adds \<^verbatim>\<open>export\<close> and comments); one definition embeds both copies of each.
\<close>

fun first_match :: "(string \<times> string) list \<Rightarrow> string \<Rightarrow> GoogleDoc option" where
  "first_match [] s = None"
| "first_match ((lit, ty) # ps) s =
     (case match_pattern lit s of
        Some g \<Rightarrow> Some \<lparr>docId = g, docType = ty\<rparr>
      | None \<Rightarrow> first_match ps s)"

definition getGoogleDocId :: "string \<Rightarrow> string \<Rightarrow> GoogleDoc option" where
  "getGoogleDocId hostname' pathname' = first_match GOOGLE_WORKSPACE_PATTERNS (hostname' @ pathname')"

definition parseUrl :: "(string \<Rightarrow> URL option) \<Rightarrow> string \<Rightarrow> ParsedUrl option" where
  "parseUrl newURL urlString =
     (case newURL urlString of
        None \<Rightarrow> None
      | Some u \<Rightarrow>
          Some \<lparr>protocol = url_protocol u,
                hostname = toLowerCase (url_hostname u),
                port = url_port u,
                pathname = (let p = strip_trailing_slashes (url_pathname u)
                            in if p = [] then ''/'' else p),
                search = url_search u,
                hash = url_hash u,
                params = fromEntries (url_searchParams u),
                original = urlString\<rparr>)"

definition normalizeUrl :: "(string \<Rightarrow> URL option) \<Rightarrow> string \<Rightarrow> string" where
  "normalizeUrl newURL urlString =
     (case parseUrl newURL urlString of
        None \<Rightarrow> urlString
      | Some parsed \<Rightarrow>
          (let hostname' = strip_www (hostname parsed);
               sortedParams = join ''&''
                 (map (\<lambda>k. k @ ''='' @ obj_get (params parsed) k) (sort (map fst (params parsed))));
               query = (if sortedParams \<noteq> [] then ''?'' @ sortedParams else [])
           in protocol parsed @ ''//'' @ hostname'
              @ (if port parsed \<noteq> [] then '':'' @ port parsed else [])
              @ pathname parsed @ query))"

definition normalizeUrlBase :: "(string \<Rightarrow> URL option) \<Rightarrow> string \<Rightarrow> string" where
  "normalizeUrlBase newURL urlString =
     (case parseUrl newURL urlString of
        None \<Rightarrow> urlString
      | Some parsed \<Rightarrow>
          (let hostname' = strip_www (hostname parsed)
           in protocol parsed @ ''//'' @ hostname'
              @ (if port parsed \<noteq> [] then '':'' @ port parsed else [])
              @ pathname parsed))"

definition isExactDuplicate :: "(string \<Rightarrow> URL option) \<Rightarrow> string \<Rightarrow> string \<Rightarrow> bool" where
  "isExactDuplicate newURL url1 url2 = (normalizeUrl newURL url1 = normalizeUrl newURL url2)"

subsubsection \<open>Edit distance\<close>

text \<open>
  The table \<^verbatim>\<open>dp\<close> is a list of rows. The two initialising loops and the nested filling
  loops run over fixed index ranges and update one cell each time round.
\<close>

definition set_cell :: "nat list list \<Rightarrow> nat \<Rightarrow> nat \<Rightarrow> nat \<Rightarrow> nat list list" where
  "set_cell dp i j v = dp[i := (dp ! i)[j := v]]"

definition fill_cell :: "string \<Rightarrow> string \<Rightarrow> nat \<Rightarrow> nat list list \<Rightarrow> nat \<Rightarrow> nat list list" where
  "fill_cell str1 str2 i dp j =
     (let cost = (if str1 ! (i - 1) = str2 ! (j - 1) then 0 else 1)
      in set_cell dp i j
           (min (min (dp ! (i - 1) ! j + 1) (dp ! i ! (j - 1) + 1)) (dp ! (i - 1) ! (j - 1) + cost)))"

definition fill_row :: "string \<Rightarrow> string \<Rightarrow> nat list list \<Rightarrow> nat \<Rightarrow> nat list list" where
  "fill_row str1 str2 dp i = foldl (fill_cell str1 str2 i) dp [1..<length str2 + 1]"

definition levenshteinDistance :: "string \<Rightarrow> string \<Rightarrow> nat" where
  "levenshteinDistance str1 str2 =
     (let m = length str1; n = length str2
      in if m = 0 then n
         else if n = 0 then m
         else
           (let dp0 = replicate (m + 1) (replicate (n + 1) 0);
                dp1 = foldl (\<lambda>dp i. set_cell dp i 0 i) dp0 [0..<m + 1];
                dp2 = foldl (\<lambda>dp j. set_cell dp 0 j j) dp1 [0..<n + 1];
                dp3 = foldl (fill_row str1 str2) dp2 [1..<m + 1]
            in dp3 ! m ! n))"

text \<open>
  \<^verbatim>\<open>Math.round((1 - distance / maxLen) * 100)\<close>, operation by operation in doubles.
\<close>

definition stringSimilarity :: "string \<Rightarrow> string \<Rightarrow> int" where
  "stringSimilarity str1 str2 =
     (if str1 = str2 then 100
      else if str1 = [] \<or> str2 = [] then 0
      else
        (let maxLen = max (length str1) (length str2);
             distance = levenshteinDistance str1 str2
         in Math_round
              (double_mul
                 (double_sub (double_of_int 1)
                    (double_div (double_of_int (int distance)) (double_of_int (int maxLen))))
                 (double_of_int 100))))"

subsubsection \<open>Query parameters\<close>

text \<open>
  \<^verbatim>\<open>filtered[key] = value\<close> on an object literal creates or overwrites an own property,
  except for the key \<^verbatim>\<open>__proto__\<close>: that assignment reaches the inherited setter, which
  ignores a string.
\<close>

definition obj_assign :: "js_object \<Rightarrow> string \<Rightarrow> string \<Rightarrow> js_object" where
  "obj_assign obj k v = (if k = ''__proto__'' then obj else obj_define obj k v)"

definition getNonTrackingParams :: "js_object \<Rightarrow> js_object" where
  "getNonTrackingParams ps =
     foldl (\<lambda>filtered (key, value).
              if toLowerCase key \<notin> set TRACKING_PARAMS then obj_assign filtered key value
              else filtered) [] ps"

definition differsByTrackingOnly :: "js_object \<Rightarrow> js_object \<Rightarrow> bool" where
  "differsByTrackingOnly params1 params2 =
     (let clean1 = getNonTrackingParams params1;
          clean2 = getNonTrackingParams params2
      in JSON_stringify clean1 = JSON_stringify clean2)"

subsubsection \<open>The pairwise classifier\<close>

text \<open>
  \<^verbatim>\<open>parseUrl(tab.url)\<close> hands a missing url to the constructor, which converts it to a
  string first. The literals \<^verbatim>\<open>0.4\<close> and \<^verbatim>\<open>0.2\<close> are the doubles nearest to 4/10 and
  2/10; the weighted score is the sum of the three products from left to right, in doubles.
\<close>

definition findSimilarity :: "(string \<Rightarrow> URL option) \<Rightarrow> Tab \<Rightarrow> Tab \<Rightarrow> int \<Rightarrow> Similarity" where
  "findSimilarity newURL t1 t2 threshold =
     (case (parseUrl newURL (ToString (url t1)), parseUrl newURL (ToString (url t2))) of
        (Some url1, Some url2) \<Rightarrow>
          (let host1 = strip_www (hostname url1);
               host2 = strip_www (hostname url2)
           in if hostname url1 \<noteq> hostname url2 \<and> host1 = host2 \<and> pathname url1 = pathname url2
                 \<and> JSON_stringify (params url1) = JSON_stringify (params url2)
              then \<lparr>similar = True, score = 95, reason = Some ''Same page on different subdomain''\<rparr>
              else if host1 \<noteq> host2
              then \<lparr>similar = False, score = 0, reason = None\<rparr>
              else if pathname url1 = pathname url2
                 \<and> JSON_stringify (params url1) = JSON_stringify (params url2)
                 \<and> hash url1 \<noteq> hash url2
              then \<lparr>similar = True, score = 90, reason = Some ''Same page, different section''\<rparr>
              else if pathname url1 = pathname url2
                 \<and> JSON_stringify (params url1) \<noteq> JSON_stringify (params url2)
              then (if differsByTrackingOnly (params url1) (params url2)
                    then \<lparr>similar = True, score = 95,
                          reason = Some ''Same page with tracking parameters''\<rparr>
                    else \<lparr>similar = True, score = 85,
                          reason = Some ''Same page, different parameters''\<rparr>)
              else
                (let pathSimilarity = stringSimilarity (pathname url1) (pathname url2)
                 in if pathSimilarity \<ge> threshold \<and> pathSimilarity < 100
                    then \<lparr>similar = True, score = pathSimilarity,
                          reason = Some (''Similar page paths ('' @ show_int pathSimilarity @ ''% match)'')\<rparr>
                    else
                      (let domainScore = (if host1 = host2 then 100 else 0);
                           pathScore = stringSimilarity (pathname url1) (pathname url2);
                           titleScore = (if truthy (title t1) \<and> truthy (title t2)
                                         then stringSimilarity (ToString (title t1)) (ToString (title t2))
                                         else 0);
                           weightedScore = Math_round
                             (double_add
                                (double_add (double_mul (double_of_int domainScore) (to_double 4 10))
                                   (double_mul (double_of_int pathScore) (to_double 4 10)))
                                (double_mul (double_of_int titleScore) (to_double 2 10)))
                       in if weightedScore \<ge> threshold
                          then \<lparr>similar = True, score = weightedScore,
                                reason = Some (show_int weightedScore @ ''% overall similarity'')\<rparr>
                          else \<lparr>similar = False, score = weightedScore, reason = None\<rparr>)))
      | _ \<Rightarrow> \<lparr>similar = False, score = 0, reason = None\<rparr>)"

subsubsection \<open>The analyzer\<close>

text \<open>
  A \<^verbatim>\<open>Map\<close> from strings to arrays of tabs, as the list of its entries in insertion order.
  \<open>map_push m k t\<close> is \<^verbatim>\<open>if (!m.has(k)) m.set(k, []); m.get(k).push(t)\<close>.
\<close>

type_synonym tab_map = "(string \<times> Tab list) list"

fun map_push :: "tab_map \<Rightarrow> string \<Rightarrow> Tab \<Rightarrow> tab_map" where
  "map_push [] k t = [(k, [t])]"
| "map_push ((k', g) # m) k t =
     (if k' = k then (k', g @ [t]) # m else (k', g) # map_push m k t)"

definition valid_tab :: "Tab \<Rightarrow> bool" where
  "valid_tab t =
     (truthy (url t) \<and> \<not> prefix ''chrome://'' (ToString (url t))
      \<and> \<not> prefix ''chrome-extension://'' (ToString (url t)))"

definition url_groups :: "(string \<Rightarrow> URL option) \<Rightarrow> Tab list \<Rightarrow> tab_map" where
  "url_groups newURL validTabs =
     foldl (\<lambda>m t. map_push m (normalizeUrl newURL (ToString (url t))) t) [] validTabs"

text \<open>The key under which the second loop files a tab, if it files it at all.\<close>

definition google_key :: "(string \<Rightarrow> URL option) \<Rightarrow> Tab \<Rightarrow> string option" where
  "google_key newURL t =
     (if truthy (url t) \<and> js_includes (ToString (url t)) ''docs.google.com''
      then (case parseUrl newURL (ToString (url t)) of
              None \<Rightarrow> None
            | Some parsed \<Rightarrow>
                (case getGoogleDocId (hostname parsed) (pathname parsed) of
                   None \<Rightarrow> None
                 | Some googleDoc \<Rightarrow> Some (''gdoc:'' @ docType googleDoc @ '':'' @ docId googleDoc)))
      else None)"

definition google_groups :: "(string \<Rightarrow> URL option) \<Rightarrow> Tab list \<Rightarrow> tab_map" where
  "google_groups newURL validTabs =
     foldl (\<lambda>m t. case google_key newURL t of None \<Rightarrow> m | Some key \<Rightarrow> map_push m key t) [] validTabs"

text \<open>
  The state of the two group-building loops: \<^verbatim>\<open>duplicateGroups\<close> and the id set
  \<^verbatim>\<open>tabsInDuplicateGroups\<close>.
\<close>

type_synonym group_state = "DuplicateGroup list \<times> int set"

definition add_group :: "group_state \<Rightarrow> string \<Rightarrow> Tab list \<Rightarrow> group_state" where
  "add_group st key g =
     (fst st @ [\<lparr>normalizedUrl = key, tabs = g, count = length g\<rparr>], snd st \<union> set (map tab_id g))"

definition add_google_groups :: "group_state \<Rightarrow> tab_map \<Rightarrow> group_state" where
  "add_google_groups st googleDocGroups =
     foldl (\<lambda>st (key, tabGroup). if length tabGroup > 1 then add_group st key tabGroup else st)
       st googleDocGroups"

definition add_url_groups :: "group_state \<Rightarrow> tab_map \<Rightarrow> group_state" where
  "add_url_groups st exactDuplicates' =
     foldl (\<lambda>st (u, tabGroup).
              (let filteredGroup = filter (\<lambda>t. tab_id t \<notin> snd st) tabGroup
               in if length filteredGroup > 1 then add_group st u filteredGroup else st))
       st exactDuplicates'"

text \<open>
  The nested index loops visit \<open>(i, j)\<close> with \<open>i < j\<close>: each tab of the pool against the tabs
  after it. The state is the set \<^verbatim>\<open>processed\<close> and the array \<^verbatim>\<open>similarPairs\<close>.
\<close>

type_synonym pair_state = "string set \<times> SimilarPair list"

definition compare_pair :: "(string \<Rightarrow> URL option) \<Rightarrow> int \<Rightarrow> Tab \<Rightarrow> pair_state \<Rightarrow> Tab \<Rightarrow> pair_state" where
  "compare_pair newURL threshold t1 st t2 =
     (let pairKey = show_int (tab_id t1) @ ''-'' @ show_int (tab_id t2)
      in if pairKey \<in> fst st then st
         else
           (let processed = insert pairKey (fst st);
                similarity = findSimilarity newURL t1 t2 threshold
            in if similar similarity
               then (processed, snd st @ [\<lparr>tab1 = t1, tab2 = t2, pair_score = score similarity,
                                           pair_reason = reason similarity\<rparr>])
               else (processed, snd st)))"

fun compare_all :: "(string \<Rightarrow> URL option) \<Rightarrow> int \<Rightarrow> Tab list \<Rightarrow> pair_state \<Rightarrow> pair_state" where
  "compare_all newURL threshold [] st = st"
| "compare_all newURL threshold (t1 # rest) st =
     compare_all newURL threshold rest (foldl (compare_pair newURL threshold t1) st rest)"

text \<open>
  Everything up to the sorted pair list; the two copies of \<^verbatim>\<open>analyzeTabs\<close> differ in
  the object they return from it. \<^verbatim>\<open>Array.prototype.sort\<close> is stable, and so is
  \<^const>\<open>sort_key\<close>.
\<close>

definition duplicate_groups :: "(string \<Rightarrow> URL option) \<Rightarrow> Tab list \<Rightarrow> group_state" where
  "duplicate_groups newURL validTabs =
     add_url_groups (add_google_groups ([], {}) (google_groups newURL validTabs))
       (url_groups newURL validTabs)"

definition comparison_pool :: "Tab list \<Rightarrow> int set \<Rightarrow> Tab list" where
  "comparison_pool validTabs tabsInDuplicateGroups =
     (let nonDuplicateTabs = filter (\<lambda>t. tab_id t \<notin> tabsInDuplicateGroups) validTabs
      in take 100 (filter (\<lambda>t. \<not> truthy (url t) \<or> \<not> js_includes (ToString (url t)) ''docs.google.com'')
                     nonDuplicateTabs))"

definition sorted_pairs :: "(string \<Rightarrow> URL option) \<Rightarrow> Tab list \<Rightarrow> int \<Rightarrow> SimilarPair list" where
  "sorted_pairs newURL nonGoogleTabs threshold =
     sort_key (\<lambda>p. - pair_score p) (snd (compare_all newURL threshold nonGoogleTabs ({}, [])))"

definition sum_counts :: "DuplicateGroup list \<Rightarrow> int" where
  "sum_counts gs = foldl (\<lambda>sum g. sum + int (count g) - 1) 0 gs"

definition analyzeTabs :: "(string \<Rightarrow> URL option) \<Rightarrow> Tab list \<Rightarrow> int \<Rightarrow> AnalysisResult" where
  "analyzeTabs newURL tabs' threshold =
     (let validTabs = filter valid_tab tabs';
          (duplicateGroups, tabsInDuplicateGroups) = duplicate_groups newURL validTabs;
          nonGoogleTabs = comparison_pool validTabs tabsInDuplicateGroups;
          similarPairs = sorted_pairs newURL nonGoogleTabs threshold
      in \<lparr>exactDuplicates = duplicateGroups,
          similarTabs = similarPairs,
          totalDuplicates = sum_counts duplicateGroups,
          totalSimilar = length similarPairs\<rparr>)"

subsection \<open>The engine inlined in the popup script (\<^verbatim>\<open>src/unnamed/part_000\<close>)\<close>

text \<open>
  The functions whose text differs from the module's, and the loops that call them, are
  embedded a second time under the prefix \<open>popup_\<close>.
\<close>

definition popup_getGoogleDocId :: "string \<Rightarrow> string \<Rightarrow> GoogleDoc option" where
  "popup_getGoogleDocId hostname' pathname' =
     (let combined = hostname' @ pathname' in first_match GOOGLE_WORKSPACE_PATTERNS combined)"

definition popup_stringSimilarity :: "string \<Rightarrow> string \<Rightarrow> int" where
  "popup_stringSimilarity str1 str2 =
     (if str1 = str2 then 100
      else if str1 = [] \<or> str2 = [] then 0
      else
        (let maxLen = max (length str1) (length str2)
         in Math_round
              (double_mul
                 (double_sub (double_of_int 1)
                    (double_div (double_of_int (int (levenshteinDistance str1 str2)))
                       (double_of_int (int maxLen))))
                 (double_of_int 100))))"

definition popup_differsByTrackingOnly :: "js_object \<Rightarrow> js_object \<Rightarrow> bool" where
  "popup_differsByTrackingOnly params1 params2 =
     (JSON_stringify (getNonTrackingParams params1) = JSON_stringify (getNonTrackingParams params2))"

definition popup_findSimilarity :: "(string \<Rightarrow> URL option) \<Rightarrow> Tab \<Rightarrow> Tab \<Rightarrow> int \<Rightarrow> Similarity" where
  "popup_findSimilarity newURL t1 t2 threshold =
     (case (parseUrl newURL (ToString (url t1)), parseUrl newURL (ToString (url t2))) of
        (Some url1, Some url2) \<Rightarrow>
          (let host1 = strip_www (hostname url1);
               host2 = strip_www (hostname url2)
           in if hostname url1 \<noteq> hostname url2 \<and> host1 = host2 \<and> pathname url1 = pathname url2
                 \<and> JSON_stringify (params url1) = JSON_stringify (params url2)
              then \<lparr>similar = True, score = 95, reason = Some ''Same page on different subdomain''\<rparr>
              else if host1 \<noteq> host2
              then \<lparr>similar = False, score = 0, reason = None\<rparr>
              else if pathname url1 = pathname url2
                 \<and> JSON_stringify (params url1) = JSON_stringify (params url2)
                 \<and> hash url1 \<noteq> hash url2
              then \<lparr>similar = True, score = 90, reason = Some ''Same page, different section''\<rparr>
              else if pathname url1 = pathname url2
                 \<and> JSON_stringify (params url1) \<noteq> JSON_stringify (params url2)
              then (if popup_differsByTrackingOnly (params url1) (params url2)
                    then \<lparr>similar = True, score = 95,
                          reason = Some ''Same page with tracking parameters''\<rparr>
                    else \<lparr>similar = True, score = 85,
                          reason = Some ''Same page, different parameters''\<rparr>)
              else
                (let pathSimilarity = popup_stringSimilarity (pathname url1) (pathname url2)
                 in if pathSimilarity \<ge> threshold \<and> pathSimilarity < 100
                    then \<lparr>similar = True, score = pathSimilarity,
                          reason = Some (''Similar page paths ('' @ show_int pathSimilarity @ ''% match)'')\<rparr>
                    else
                      (let domainScore = (if host1 = host2 then 100 else 0);
                           pathScore = popup_stringSimilarity (pathname url1) (pathname url2);
                           titleScore = (if truthy (title t1) \<and> truthy (title t2)
                                         then popup_stringSimilarity (ToString (title t1)) (ToString (title t2))
                                         else 0);
                           weightedScore = Math_round
                             (double_add
                                (double_add (double_mul (double_of_int domainScore) (to_double 4 10))
                                   (double_mul (double_of_int pathScore) (to_double 4 10)))
                                (double_mul (double_of_int titleScore) (to_double 2 10)))
                       in if weightedScore \<ge> threshold
                          then \<lparr>similar = True, score = weightedScore,
                                reason = Some (show_int weightedScore @ ''% overall similarity'')\<rparr>
                          else \<lparr>similar = False, score = weightedScore, reason = None\<rparr>)))
      | _ \<Rightarrow> \<lparr>similar = False, score = 0, reason = None\<rparr>)"

definition popup_google_key :: "(string \<Rightarrow> URL option) \<Rightarrow> Tab \<Rightarrow> string option" where
  "popup_google_key newURL t =
     (if truthy (url t) \<and> js_includes (ToString (url t)) ''docs.google.com''
      then (case parseUrl newURL (ToString (url t)) of
              None \<Rightarrow> None
            | Some parsed \<Rightarrow>
                (case popup_getGoogleDocId (hostname parsed) (pathname parsed) of
                   None \<Rightarrow> None
                 | Some googleDoc \<Rightarrow> Some (''gdoc:'' @ docType googleDoc @ '':'' @ docId googleDoc)))
      else None)"

definition popup_google_groups :: "(string \<Rightarrow> URL option) \<Rightarrow> Tab list \<Rightarrow> tab_map" where
  "popup_google_groups newURL validTabs =
     foldl (\<lambda>m t. case popup_google_key newURL t of None \<Rightarrow> m | Some key \<Rightarrow> map_push m key t)
       [] validTabs"

definition popup_duplicate_groups :: "(string \<Rightarrow> URL option) \<Rightarrow> Tab list \<Rightarrow> group_state" where
  "popup_duplicate_groups newURL validTabs =
     add_url_groups (add_google_groups ([], {}) (popup_google_groups newURL validTabs))
       (url_groups newURL validTabs)"

definition popup_compare_pair :: "(string \<Rightarrow> URL option) \<Rightarrow> int \<Rightarrow> Tab \<Rightarrow> pair_state \<Rightarrow> Tab \<Rightarrow> pair_state" where
  "popup_compare_pair newURL threshold t1 st t2 =
     (let pairKey = show_int (tab_id t1) @ ''-'' @ show_int (tab_id t2)
      in if pairKey \<in> fst st then st
         else
           (let processed = insert pairKey (fst st);
                similarity = popup_findSimilarity newURL t1 t2 threshold
            in if similar similarity
               then (processed, snd st @ [\<lparr>tab1 = t1, tab2 = t2, pair_score = score similarity,
                                           pair_reason = reason similarity\<rparr>])
               else (processed, snd st)))"

fun popup_compare_all :: "(string \<Rightarrow> URL option) \<Rightarrow> int \<Rightarrow> Tab list \<Rightarrow> pair_state \<Rightarrow> pair_state" where
  "popup_compare_all newURL threshold [] st = st"
| "popup_compare_all newURL threshold (t1 # rest) st =
     popup_compare_all newURL threshold rest (foldl (popup_compare_pair newURL threshold t1) st rest)"

definition popup_sorted_pairs :: "(string \<Rightarrow> URL option) \<Rightarrow> Tab list \<Rightarrow> int \<Rightarrow> SimilarPair list" where
  "popup_sorted_pairs newURL nonGoogleTabs threshold =
     sort_key (\<lambda>p. - pair_score p) (snd (popup_compare_all newURL threshold nonGoogleTabs ({}, [])))"

definition popup_analyzeTabs :: "(string \<Rightarrow> URL option) \<Rightarrow> Tab list \<Rightarrow> int \<Rightarrow> AnalysisResult" where
  "popup_analyzeTabs newURL tabs' threshold =
     (let validTabs = filter valid_tab tabs';
          (duplicateGroups, tabsInDuplicateGroups) = popup_duplicate_groups newURL validTabs;
          nonGoogleTabs = comparison_pool validTabs tabsInDuplicateGroups;
          similarPairs = popup_sorted_pairs newURL nonGoogleTabs threshold
      in \<lparr>exactDuplicates = duplicateGroups,
          similarTabs = take 20 similarPairs,
          totalDuplicates = sum_counts duplicateGroups,
          totalSimilar = min (length similarPairs) 20\<rparr>)"

subsection \<open>A stand-in for the platform's URL constructor\<close>

text \<open>
  The general results below hold for whatever \<open>newURL\<close> is. The concrete scenarios need
  one to run on. \<open>URL_model\<close> is not a model of the URL standard. It reads absolute URLs
  of the plain shape \<^verbatim>\<open>scheme://host[:port][/path][?query][#fragment]\<close> (no credentials,
  no percent escapes, no dot segments, no surrounding white space, ASCII host names) the way
  the platform does, and rejects, as the platform does, a string that does not start with a
  scheme and a colon. On other input it differs from the platform: it rejects a URL without
  \<^verbatim>\<open>//\<close> after the scheme, such as \<^verbatim>\<open>about:blank\<close>, which the platform accepts, and it
  leaves percent escapes in query names and values undecoded. It is applied below only to
  strings of the plain shape and to \<^verbatim>\<open>not a url\<close>.
\<close>

definition is_alpha :: "char \<Rightarrow> bool" where
  "is_alpha c = (let n = (of_char c :: nat) in (65 \<le> n \<and> n \<le> 90) \<or> (97 \<le> n \<and> n \<le> 122))"

definition scheme_char :: "char \<Rightarrow> bool" where
  "scheme_char c = (is_alpha c \<or> is_digit c \<or> c = CHR ''+'' \<or> c = CHR ''-'' \<or> c = CHR ''.'')"

definition default_port :: "string \<Rightarrow> string" where
  "default_port scheme =
     (if scheme = ''http'' \<or> scheme = ''ws'' then ''80''
      else if scheme = ''https'' \<or> scheme = ''wss'' then ''443''
      else if scheme = ''ftp'' then ''21'' else [])"

fun split_on :: "char \<Rightarrow> string \<Rightarrow> string list" where
  "split_on c [] = [[]]"
| "split_on c (x # xs) =
     (if x = c then [] # split_on c xs
      else (case split_on c xs of [] \<Rightarrow> [[x]] | w # ws \<Rightarrow> (x # w) # ws))"

definition plus_to_space :: "string \<Rightarrow> string" where
  "plus_to_space s = map (\<lambda>c. if c = CHR ''+'' then CHR '' '' else c) s"

definition parse_query :: "string \<Rightarrow> (string \<times> string) list" where
  "parse_query q =
     map (\<lambda>piece. (plus_to_space (takeWhile (\<lambda>c. c \<noteq> CHR ''='') piece),
                    plus_to_space (drop 1 (dropWhile (\<lambda>c. c \<noteq> CHR ''='') piece))))
       (filter (\<lambda>piece. piece \<noteq> []) (split_on CHR ''&'' q))"

definition URL_model :: "string \<Rightarrow> URL option" where
  "URL_model s =
     (let scheme = takeWhile (\<lambda>c. c \<noteq> CHR '':'') s;
          after = dropWhile (\<lambda>c. c \<noteq> CHR '':'') s
      in if scheme = [] \<or> \<not> is_alpha (hd scheme) \<or> \<not> list_all scheme_char scheme
            \<or> \<not> prefix ''://'' after
         then None
         else
           (let r = drop 3 after;
                beforeHash = takeWhile (\<lambda>c. c \<noteq> CHR ''#'') r;
                fragment = drop 1 (dropWhile (\<lambda>c. c \<noteq> CHR ''#'') r);
                beforeQuery = takeWhile (\<lambda>c. c \<noteq> CHR ''?'') beforeHash;
                query = drop 1 (dropWhile (\<lambda>c. c \<noteq> CHR ''?'') beforeHash);
                authority = takeWhile (\<lambda>c. c \<noteq> CHR ''/'') beforeQuery;
                path = dropWhile (\<lambda>c. c \<noteq> CHR ''/'') beforeQuery;
                host = takeWhile (\<lambda>c. c \<noteq> CHR '':'') authority;
                portText = drop 1 (dropWhile (\<lambda>c. c \<noteq> CHR '':'') authority)
            in if host = [] \<or> \<not> list_all is_digit portText \<or> 65535 < decimal_val portText then None
               else
                 Some \<lparr>url_protocol = toLowerCase scheme @ '':'',
                       url_hostname = toLowerCase host,
                       url_port = (if portText = [] \<or> show_int (decimal_val portText) = default_port (toLowerCase scheme)
                                   then [] else show_int (decimal_val portText)),
                       url_pathname = (if path = [] then ''/'' else path),
                       url_search = (if query = [] then [] else ''?'' @ query),
                       url_hash = (if fragment = [] then [] else ''#'' @ fragment),
                       url_searchParams = parse_query query\<rparr>))"

subsection \<open>What the edit-distance table holds\<close>

text \<open>
  \<open>cell_value a b i j\<close> is the number the loops of \<^verbatim>\<open>levenshteinDistance\<close> leave in
  \<^verbatim>\<open>dp[i][j]\<close>, read off the assignments. \<open>written r c\<close> tells which cells are final when
  the nested loops stand at row \<open>r\<close>, column \<open>c\<close>, and \<open>dp_inv\<close> is the loop invariant.
\<close>

fun cell_value :: "string \<Rightarrow> string \<Rightarrow> nat \<Rightarrow> nat \<Rightarrow> nat" where
  "cell_value a b 0 j = j"
| "cell_value a b (Suc i) 0 = Suc i"
| "cell_value a b (Suc i) (Suc j) =
     min (min (cell_value a b i (Suc j) + 1) (cell_value a b (Suc i) j + 1))
         (cell_value a b i j + (if a ! i = b ! j then 0 else 1))"

definition written :: "nat \<Rightarrow> nat \<Rightarrow> nat \<Rightarrow> nat \<Rightarrow> bool" where
  "written r c i j = (i = 0 \<or> j = 0 \<or> i < r \<or> (i = r \<and> j < c))"

definition dp_inv :: "string \<Rightarrow> string \<Rightarrow> nat list list \<Rightarrow> nat \<Rightarrow> nat \<Rightarrow> bool" where
  "dp_inv a b dp r c =
     (length dp = length a + 1 \<and> (\<forall>i \<le> length a. length (dp ! i) = length b + 1)
      \<and> (\<forall>i \<le> length a. \<forall>j \<le> length b. written r c i j \<longrightarrow> dp ! i ! j = cell_value a b i j))"

subsection \<open>What the group-building loops maintain\<close>

text \<open>
  \<open>group_ids g\<close> are the ids of the tabs of a group and \<open>all_tabs m\<close> the tabs filed in a
  \<^verbatim>\<open>Map\<close>, group after group. \<open>group_inv\<close> is the invariant of the two loops that fill
  \<^verbatim>\<open>duplicateGroups\<close>: no id occurs twice in the groups emitted so far,
  \<^verbatim>\<open>tabsInDuplicateGroups\<close> holds exactly their ids, and every group has its length as
  count and at least two tabs.
\<close>

definition group_ids :: "DuplicateGroup \<Rightarrow> int list" where
  "group_ids g = map tab_id (tabs g)"

definition group_inv :: "group_state \<Rightarrow> bool" where
  "group_inv st =
     (distinct (concat (map group_ids (fst st)))
      \<and> snd st = set (concat (map group_ids (fst st)))
      \<and> (\<forall>g \<in> set (fst st). count g = length (tabs g) \<and> 1 < count g))"

definition all_tabs :: "tab_map \<Rightarrow> Tab list" where
  "all_tabs m = concat (map snd m)"

subsection \<open>Normalizing a normalized url\<close>

text \<open>
  The condition under which idempotence of \<^verbatim>\<open>normalizeUrl\<close> is asked for: \<open>u\<close> parses, and
  its normalized form parses again into the parts it was put together from, that is the same
  scheme, the host without its leading \<^verbatim>\<open>www.\<close>, the same port and path, and the same
  query mapping.
\<close>

definition same_shape :: "(string \<Rightarrow> URL option) \<Rightarrow> string \<Rightarrow> bool" where
  "same_shape newURL u =
     (case parseUrl newURL u of
        None \<Rightarrow> False
      | Some p \<Rightarrow>
          (case parseUrl newURL (normalizeUrl newURL u) of
             None \<Rightarrow> False
           | Some q \<Rightarrow>
               protocol q = protocol p \<and> hostname q = strip_www (hostname p) \<and> port q = port p
               \<and> pathname q = pathname p \<and> set (params q) = set (params p)))"

subsection \<open>Concrete inputs\<close>

text \<open>Seven tabs on one page that differ in the value of one query parameter.\<close>

definition query_tabs :: "Tab list" where
  "query_tabs =
     map (\<lambda>i. \<lparr>tab_id = i, url = Some (''http://h/?x='' @ show_int i), title = None\<rparr>)
       [1, 2, 3, 4, 5, 6, 7]"

text \<open>Two tabs whose paths differ in one character of four.\<close>

definition path_tabs :: "Tab list" where
  "path_tabs = [\<lparr>tab_id = 1, url = Some ''http://h/ab1'', title = None\<rparr>,
                \<lparr>tab_id = 2, url = Some ''http://h/ab2'', title = None\<rparr>]"



text \<open>Two views of one document, two spellings of one page, and a page of its own.\<close>

definition mixed_tabs :: "Tab list" where
  "mixed_tabs =
     [\<lparr>tab_id = 1, url = Some ''https://docs.google.com/document/d/A/edit'', title = None\<rparr>,
      \<lparr>tab_id = 2, url = Some ''http://h/a'', title = None\<rparr>,
      \<lparr>tab_id = 3, url = Some ''https://docs.google.com/document/d/A/view'', title = None\<rparr>,
      \<lparr>tab_id = 4, url = Some ''http://www.h/a/#top'', title = None\<rparr>,
      \<lparr>tab_id = 5, url = Some ''http://h/b'', title = None\<rparr>]"

section \<open>Results\<close>

subsection \<open>Numbers\<close>

text \<open>
  The percentage for distance 17 at length 40 is 57 in doubles, where the exact quotient
  57.5 would round to 58.
\<close>

lemma percentage_17_of_40:
  "Math_round
     (double_mul
        (double_sub (double_of_int 1) (double_div (double_of_int 17) (double_of_int 40)))
        (double_of_int 100)) = 57"
  by code_simp

subsection \<open>The classifier on single pairs\<close>

text \<open>
  C8. Cross-domain short-circuit: when both urls parse and the hosts differ after a leading
  \<^verbatim>\<open>www.\<close> is stripped, \<^verbatim>\<open>findSimilarity\<close> answers not similar, score 0, no reason,
  at every threshold and whatever the titles are.
\<close>

theorem cross_domain_not_similar:
  assumes "url t1 = Some u1" and "url t2 = Some u2"
    and "parseUrl newURL u1 = Some p1" and "parseUrl newURL u2 = Some p2"
    and "strip_www (hostname p1) \<noteq> strip_www (hostname p2)"
  shows "findSimilarity newURL t1 t2 threshold = \<lparr>similar = False, score = 0, reason = None\<rparr>"
  using assms by (simp add: findSimilarity_def ToString_def)

theorem cross_domain_not_similar_witness:
  "findSimilarity URL_model
     \<lparr>tab_id = 1, url = Some ''https://a.com/x'', title = Some ''Same title''\<rparr>
     \<lparr>tab_id = 2, url = Some ''https://b.com/x'', title = Some ''Same title''\<rparr> 0
   = \<lparr>similar = False, score = 0, reason = None\<rparr>"
proof -
  have a: "parseUrl URL_model ''https://a.com/x'' =
      Some \<lparr>protocol = ''https:'', hostname = ''a.com'', port = [], pathname = ''/x'',
            search = [], hash = [], params = [], original = ''https://a.com/x''\<rparr>"
    by code_simp
  have b: "parseUrl URL_model ''https://b.com/x'' =
      Some \<lparr>protocol = ''https:'', hostname = ''b.com'', port = [], pathname = ''/x'',
            search = [], hash = [], params = [], original = ''https://b.com/x''\<rparr>"
    by code_simp
  have c: "strip_www ''a.com'' \<noteq> strip_www ''b.com''"
    by code_simp
  show ?thesis
    by (rule cross_domain_not_similar [OF _ _ a b]) (simp_all add: c)
qed

text \<open>
  C6. Scenario 1: for the urls \<^verbatim>\<open>https://example.com/page?utm_source=x\<close> and
  \<^verbatim>\<open>https://example.com/page\<close>, \<^verbatim>\<open>findSimilarity\<close> returns similar, score 95, reason
  "Same page with tracking parameters", at any threshold and for any ids and titles. The two
  premises on \<open>newURL\<close> say what the platform's constructor makes of the two strings.
\<close>

theorem tracking_parameter_scenario:
  assumes u1: "newURL ''https://example.com/page?utm_source=x'' =
      Some \<lparr>url_protocol = ''https:'', url_hostname = ''example.com'', url_port = [],
            url_pathname = ''/page'', url_search = ''?utm_source=x'', url_hash = [],
            url_searchParams = [(''utm_source'', ''x'')]\<rparr>"
    and u2: "newURL ''https://example.com/page'' =
      Some \<lparr>url_protocol = ''https:'', url_hostname = ''example.com'', url_port = [],
            url_pathname = ''/page'', url_search = [], url_hash = [],
            url_searchParams = []\<rparr>"
    and t1: "url t1 = Some ''https://example.com/page?utm_source=x''"
    and t2: "url t2 = Some ''https://example.com/page''"
  shows "findSimilarity newURL t1 t2 threshold =
      \<lparr>similar = True, score = 95, reason = Some ''Same page with tracking parameters''\<rparr>"
proof -
  have h: "toLowerCase ''example.com'' = ''example.com''" by code_simp
  have p: "strip_trailing_slashes ''/page'' = ''/page''" by code_simp
  have f1: "fromEntries [(''utm_source'', ''x'')] = [(''utm_source'', ''x'')]" by code_simp
  have f2: "fromEntries [] = []" by code_simp
  have j: "JSON_stringify [(''utm_source'', ''x'')] \<noteq> JSON_stringify []" by code_simp
  have d: "differsByTrackingOnly [(''utm_source'', ''x'')] []" by code_simp
  show ?thesis
    by (simp add: findSimilarity_def parseUrl_def ToString_def u1 u2 t1 t2 h p f1 f2 j d)
qed

theorem tracking_parameter_scenario_witness:
  "findSimilarity URL_model
     \<lparr>tab_id = 1, url = Some ''https://example.com/page?utm_source=x'', title = None\<rparr>
     \<lparr>tab_id = 2, url = Some ''https://example.com/page'', title = None\<rparr> 80
   = \<lparr>similar = True, score = 95, reason = Some ''Same page with tracking parameters''\<rparr>"
proof -
  have a: "URL_model ''https://example.com/page?utm_source=x'' =
      Some \<lparr>url_protocol = ''https:'', url_hostname = ''example.com'', url_port = [],
            url_pathname = ''/page'', url_search = ''?utm_source=x'', url_hash = [],
            url_searchParams = [(''utm_source'', ''x'')]\<rparr>"
    by code_simp
  have b: "URL_model ''https://example.com/page'' =
      Some \<lparr>url_protocol = ''https:'', url_hostname = ''example.com'', url_port = [],
            url_pathname = ''/page'', url_search = [], url_hash = [],
            url_searchParams = []\<rparr>"
    by code_simp
  show ?thesis
    by (rule tracking_parameter_scenario [OF a b]) simp_all
qed

subsection \<open>The analyzer on concrete tab lists\<close>

text \<open>
  C7. Scenario 3: for the two tabs \<^verbatim>\<open>https://docs.google.com/document/d/ABC123/edit\<close> and
  \<^verbatim>\<open>.../ABC123/view\<close>, \<^verbatim>\<open>analyzeTabs\<close> returns exactly one duplicate group, with key
  \<^verbatim>\<open>gdoc:doc:ABC123\<close> and count 2, although the two normalized urls differ. It holds for
  any ids, distinct or not.
\<close>

theorem google_doc_scenario:
  assumes e: "newURL ''https://docs.google.com/document/d/ABC123/edit'' =
      Some \<lparr>url_protocol = ''https:'', url_hostname = ''docs.google.com'', url_port = [],
            url_pathname = ''/document/d/ABC123/edit'', url_search = [], url_hash = [],
            url_searchParams = []\<rparr>"
    and v: "newURL ''https://docs.google.com/document/d/ABC123/view'' =
      Some \<lparr>url_protocol = ''https:'', url_hostname = ''docs.google.com'', url_port = [],
            url_pathname = ''/document/d/ABC123/view'', url_search = [], url_hash = [],
            url_searchParams = []\<rparr>"
    and t1: "url t1 = Some ''https://docs.google.com/document/d/ABC123/edit''"
    and t2: "url t2 = Some ''https://docs.google.com/document/d/ABC123/view''"
  shows "exactDuplicates (analyzeTabs newURL [t1, t2] threshold) =
           [\<lparr>normalizedUrl = ''gdoc:doc:ABC123'', tabs = [t1, t2], count = 2\<rparr>]
         \<and> normalizeUrl newURL ''https://docs.google.com/document/d/ABC123/edit''
           \<noteq> normalizeUrl newURL ''https://docs.google.com/document/d/ABC123/view''"
proof -
  have h: "toLowerCase ''docs.google.com'' = ''docs.google.com''" by code_simp
  have pe: "strip_trailing_slashes ''/document/d/ABC123/edit'' = ''/document/d/ABC123/edit''"
    by code_simp
  have pv: "strip_trailing_slashes ''/document/d/ABC123/view'' = ''/document/d/ABC123/view''"
    by code_simp
  have f: "fromEntries [] = []" by code_simp
  have parse_e: "parseUrl newURL ''https://docs.google.com/document/d/ABC123/edit'' =
      Some \<lparr>protocol = ''https:'', hostname = ''docs.google.com'', port = [],
            pathname = ''/document/d/ABC123/edit'', search = [], hash = [], params = [],
            original = ''https://docs.google.com/document/d/ABC123/edit''\<rparr>"
    by (simp add: parseUrl_def e h pe f)
  have parse_v: "parseUrl newURL ''https://docs.google.com/document/d/ABC123/view'' =
      Some \<lparr>protocol = ''https:'', hostname = ''docs.google.com'', port = [],
            pathname = ''/document/d/ABC123/view'', search = [], hash = [], params = [],
            original = ''https://docs.google.com/document/d/ABC123/view''\<rparr>"
    by (simp add: parseUrl_def v h pv f)
  have sw: "strip_www ''docs.google.com'' = ''docs.google.com''" by code_simp
  have ne: "normalizeUrl newURL ''https://docs.google.com/document/d/ABC123/edit'' =
      ''https://docs.google.com/document/d/ABC123/edit''"
    by (simp add: normalizeUrl_def parse_e sw)
  have nv: "normalizeUrl newURL ''https://docs.google.com/document/d/ABC123/view'' =
      ''https://docs.google.com/document/d/ABC123/view''"
    by (simp add: normalizeUrl_def parse_v sw)
  have ve: "truthy (Some ''https://docs.google.com/document/d/ABC123/edit'')
      \<and> \<not> prefix ''chrome://'' ''https://docs.google.com/document/d/ABC123/edit''
      \<and> \<not> prefix ''chrome-extension://'' ''https://docs.google.com/document/d/ABC123/edit''
      \<and> js_includes ''https://docs.google.com/document/d/ABC123/edit'' ''docs.google.com''"
    by code_simp
  have vv: "truthy (Some ''https://docs.google.com/document/d/ABC123/view'')
      \<and> \<not> prefix ''chrome://'' ''https://docs.google.com/document/d/ABC123/view''
      \<and> \<not> prefix ''chrome-extension://'' ''https://docs.google.com/document/d/ABC123/view''
      \<and> js_includes ''https://docs.google.com/document/d/ABC123/view'' ''docs.google.com''"
    by code_simp
  have ge: "getGoogleDocId ''docs.google.com'' ''/document/d/ABC123/edit'' =
      Some \<lparr>docId = ''ABC123'', docType = ''doc''\<rparr>"
    by code_simp
  have gv: "getGoogleDocId ''docs.google.com'' ''/document/d/ABC123/view'' =
      Some \<lparr>docId = ''ABC123'', docType = ''doc''\<rparr>"
    by code_simp
  have valid: "valid_tab t1" "valid_tab t2"
    using ve vv by (simp_all add: valid_tab_def t1 t2 ToString_def)
  have key: "google_key newURL t1 = Some ''gdoc:doc:ABC123''"
    "google_key newURL t2 = Some ''gdoc:doc:ABC123''"
    using ve vv by (simp_all add: google_key_def t1 t2 ToString_def parse_e parse_v ge gv)
  have gg: "google_groups newURL [t1, t2] = [(''gdoc:doc:ABC123'', [t1, t2])]"
    by (simp add: google_groups_def key)
  have ug: "url_groups newURL [t1, t2] =
      [(''https://docs.google.com/document/d/ABC123/edit'', [t1]),
       (''https://docs.google.com/document/d/ABC123/view'', [t2])]"
    by (simp add: url_groups_def t1 t2 ToString_def ne nv)
  have dg: "fst (duplicate_groups newURL [t1, t2]) =
      [\<lparr>normalizedUrl = ''gdoc:doc:ABC123'', tabs = [t1, t2], count = 2\<rparr>]"
    by (simp add: duplicate_groups_def gg ug add_google_groups_def add_url_groups_def add_group_def)
  have "exactDuplicates (analyzeTabs newURL [t1, t2] threshold)
      = fst (duplicate_groups newURL [t1, t2])"
    by (simp add: analyzeTabs_def valid Let_def split: prod.split)
  with dg ne nv show ?thesis by simp
qed

theorem google_doc_scenario_witness:
  "exactDuplicates (analyzeTabs URL_model
      [\<lparr>tab_id = 1, url = Some ''https://docs.google.com/document/d/ABC123/edit'', title = None\<rparr>,
       \<lparr>tab_id = 2, url = Some ''https://docs.google.com/document/d/ABC123/view'', title = None\<rparr>] 80)
   = [\<lparr>normalizedUrl = ''gdoc:doc:ABC123'',
       tabs = [\<lparr>tab_id = 1, url = Some ''https://docs.google.com/document/d/ABC123/edit'', title = None\<rparr>,
               \<lparr>tab_id = 2, url = Some ''https://docs.google.com/document/d/ABC123/view'', title = None\<rparr>],
       count = 2\<rparr>]"
proof -
  have a: "URL_model ''https://docs.google.com/document/d/ABC123/edit'' =
      Some \<lparr>url_protocol = ''https:'', url_hostname = ''docs.google.com'', url_port = [],
            url_pathname = ''/document/d/ABC123/edit'', url_search = [], url_hash = [],
            url_searchParams = []\<rparr>"
    by code_simp
  have b: "URL_model ''https://docs.google.com/document/d/ABC123/view'' =
      Some \<lparr>url_protocol = ''https:'', url_hostname = ''docs.google.com'', url_port = [],
            url_pathname = ''/document/d/ABC123/view'', url_search = [], url_hash = [],
            url_searchParams = []\<rparr>"
    by code_simp
  show ?thesis
    by (rule conjunct1 [OF google_doc_scenario [OF a b]]) simp_all
qed

subsection \<open>Order of query parameters\<close>

text \<open>
  C2. The claim is that the classifier compares query mappings as unordered sets of key/value
  pairs. The code compares \<^verbatim>\<open>JSON.stringify\<close> of the two objects, which lists the keys
  in creation order. Evaluated on \<^verbatim>\<open>?a=1&b=2&utm_source=x\<close> against \<^verbatim>\<open>?b=2&a=1\<close>
  (the same pairs apart from a tracking parameter), the classifier answers "different
  parameters", score 85; with the pairs in the same order it answers "tracking parameters",
  score 95. The two tabs are not exact duplicates, so \<^verbatim>\<open>analyzeTabs\<close> hands this
  very pair to the classifier and reports it with the first reason.
\<close>

theorem query_order_changes_verdict:
  "findSimilarity URL_model
     \<lparr>tab_id = 1, url = Some ''https://example.com/p?a=1&b=2&utm_source=x'', title = None\<rparr>
     \<lparr>tab_id = 2, url = Some ''https://example.com/p?b=2&a=1'', title = None\<rparr> 80
   = \<lparr>similar = True, score = 85, reason = Some ''Same page, different parameters''\<rparr>
   \<and> findSimilarity URL_model
     \<lparr>tab_id = 1, url = Some ''https://example.com/p?a=1&b=2&utm_source=x'', title = None\<rparr>
     \<lparr>tab_id = 2, url = Some ''https://example.com/p?a=1&b=2'', title = None\<rparr> 80
   = \<lparr>similar = True, score = 95, reason = Some ''Same page with tracking parameters''\<rparr>
   \<and> map pair_reason (similarTabs (analyzeTabs URL_model
       [\<lparr>tab_id = 1, url = Some ''https://example.com/p?a=1&b=2&utm_source=x'', title = None\<rparr>,
        \<lparr>tab_id = 2, url = Some ''https://example.com/p?b=2&a=1'', title = None\<rparr>] 80))
     = [Some ''Same page, different parameters'']"
  by code_simp

subsection \<open>The two copies of the engine\<close>

lemma popup_getGoogleDocId_eq: "popup_getGoogleDocId = getGoogleDocId"
  by (simp add: fun_eq_iff popup_getGoogleDocId_def getGoogleDocId_def)

lemma popup_stringSimilarity_eq: "popup_stringSimilarity = stringSimilarity"
  by (simp add: fun_eq_iff popup_stringSimilarity_def stringSimilarity_def Let_def)

lemma popup_differsByTrackingOnly_eq: "popup_differsByTrackingOnly = differsByTrackingOnly"
  by (simp add: fun_eq_iff popup_differsByTrackingOnly_def differsByTrackingOnly_def Let_def)

lemma popup_findSimilarity_eq: "popup_findSimilarity = findSimilarity"
  unfolding fun_eq_iff popup_findSimilarity_def findSimilarity_def
    popup_stringSimilarity_eq popup_differsByTrackingOnly_eq
  by (rule allI | rule refl)+

lemma popup_google_groups_eq: "popup_google_groups = google_groups"
  unfolding fun_eq_iff popup_google_groups_def google_groups_def popup_google_key_def
    google_key_def popup_getGoogleDocId_eq
  by (rule allI | rule refl)+

lemma popup_duplicate_groups_eq: "popup_duplicate_groups = duplicate_groups"
  by (simp add: fun_eq_iff popup_duplicate_groups_def duplicate_groups_def popup_google_groups_eq)

lemma popup_compare_pair_eq: "popup_compare_pair = compare_pair"
  unfolding fun_eq_iff popup_compare_pair_def compare_pair_def popup_findSimilarity_eq
  by (rule allI | rule refl)+

lemma popup_compare_all_eq: "popup_compare_all newURL th ts st = compare_all newURL th ts st"
  by (induction ts arbitrary: st) (simp_all add: popup_compare_pair_eq)

lemma popup_sorted_pairs_eq: "popup_sorted_pairs = sorted_pairs"
  by (simp add: fun_eq_iff popup_sorted_pairs_def sorted_pairs_def popup_compare_all_eq)

lemma query_tabs_valid: "filter valid_tab query_tabs = query_tabs"
  by code_simp

lemma query_tabs_groups: "duplicate_groups URL_model query_tabs = ([], {})"
  by code_simp

lemma query_tabs_pool: "comparison_pool query_tabs {} = query_tabs"
  by code_simp

lemma query_tabs_pairs: "length (snd (compare_all URL_model 80 query_tabs ({}, []))) = 21"
  by code_simp

text \<open>
  C3, as stated, fails: the popup's copy returns at most 20 similar pairs. On the seven tabs
  of \<open>query_tabs\<close> every one of the 21 pairs is similar; the module reports 21, the popup 20.
\<close>

theorem copies_differ_on_query_tabs:
  "totalSimilar (analyzeTabs URL_model query_tabs 80) = 21
   \<and> totalSimilar (popup_analyzeTabs URL_model query_tabs 80) = 20
   \<and> analyzeTabs URL_model query_tabs 80 \<noteq> popup_analyzeTabs URL_model query_tabs 80"
proof -
  have m: "totalSimilar (analyzeTabs URL_model query_tabs 80) = 21"
    by (simp add: analyzeTabs_def query_tabs_valid query_tabs_groups query_tabs_pool
        query_tabs_pairs sorted_pairs_def)
  have p: "totalSimilar (popup_analyzeTabs URL_model query_tabs 80) = 20"
    by (simp add: popup_analyzeTabs_def popup_duplicate_groups_eq popup_sorted_pairs_eq
        query_tabs_valid query_tabs_groups query_tabs_pool query_tabs_pairs sorted_pairs_def)
  from m p show ?thesis by auto
qed

text \<open>
  C3, amended: the two copies build the same duplicate groups and the same sorted pair list;
  the popup returns the first 20 pairs of that list and the smaller of its length and 20 as
  \<^verbatim>\<open>totalSimilar\<close>. The duplicate groups and \<^verbatim>\<open>totalDuplicates\<close> are equal.
\<close>

theorem popup_analyzeTabs_caps_pairs:
  "exactDuplicates (popup_analyzeTabs newURL ts th) = exactDuplicates (analyzeTabs newURL ts th)
   \<and> totalDuplicates (popup_analyzeTabs newURL ts th) = totalDuplicates (analyzeTabs newURL ts th)
   \<and> similarTabs (popup_analyzeTabs newURL ts th) = take 20 (similarTabs (analyzeTabs newURL ts th))
   \<and> totalSimilar (popup_analyzeTabs newURL ts th) = min (totalSimilar (analyzeTabs newURL ts th)) 20"
  by (simp add: popup_analyzeTabs_def analyzeTabs_def popup_duplicate_groups_eq
      popup_sorted_pairs_eq Let_def split: prod.split)

subsection \<open>Edit distance and symmetry of the classifier\<close>

lemma cell_value_0_right: "cell_value a b i 0 = i"
  by (cases i) simp_all

lemma cell_value_sym: "cell_value a b i j = cell_value b a j i"
proof (induction a b i j rule: cell_value.induct)
  case (1 a b j)
  show ?case by (simp add: cell_value_0_right)
next
  case (2 a b i)
  show ?case by simp
next
  case (3 a b i j)
  then show ?case by (simp add: min.commute min.left_commute eq_commute)
qed

lemma set_cell_length: "length (set_cell dp i j v) = length dp"
  by (simp add: set_cell_def)

lemma set_cell_row_length: "length (set_cell dp i j v ! i') = length (dp ! i')"
  by (cases "i < length dp"; cases "i' = i") (simp_all add: set_cell_def list_update_beyond)

lemma set_cell_get:
  "i < length dp \<Longrightarrow> j < length (dp ! i) \<Longrightarrow>
   set_cell dp i j v ! i' ! j' = (if i' = i \<and> j' = j then v else dp ! i' ! j')"
  by (cases "i' = i"; cases "j' = j") (simp_all add: set_cell_def)

lemma init_rows:
  "k \<le> length dp \<Longrightarrow> \<forall>i < length dp. 0 < length (dp ! i) \<Longrightarrow>
   (let dp' = foldl (\<lambda>dp i. set_cell dp i 0 i) dp [0..<k]
    in length dp' = length dp \<and> (\<forall>i. length (dp' ! i) = length (dp ! i))
       \<and> (\<forall>i j. i < length dp \<longrightarrow> dp' ! i ! j = (if j = 0 \<and> i < k then i else dp ! i ! j)))"
proof (induction k)
  case 0
  then show ?case by simp
next
  case (Suc k)
  then show ?case
    by (auto simp: Let_def set_cell_length set_cell_row_length set_cell_get)
qed

lemma init_cols:
  "0 < length dp \<Longrightarrow> k \<le> length (dp ! 0) \<Longrightarrow>
   (let dp' = foldl (\<lambda>dp j. set_cell dp 0 j j) dp [0..<k]
    in length dp' = length dp \<and> (\<forall>i. length (dp' ! i) = length (dp ! i))
       \<and> (\<forall>i j. dp' ! i ! j = (if i = 0 \<and> j < k then j else dp ! i ! j)))"
proof (induction k)
  case 0
  then show ?case by simp
next
  case (Suc k)
  then show ?case
    by (auto simp: Let_def set_cell_length set_cell_row_length set_cell_get)
qed


lemma fill_cell_inv:
  assumes inv: "dp_inv a b dp i j" and i: "1 \<le> i" "i \<le> length a" and j: "1 \<le> j" "j \<le> length b"
  shows "dp_inv a b (fill_cell a b i dp j) i (Suc j)"
proof -
  obtain i' j' where ij: "i = Suc i'" "j = Suc j'"
    using i j by (cases i; cases j) auto
  have len: "length dp = length a + 1"
    and rows: "\<And>x. x \<le> length a \<Longrightarrow> length (dp ! x) = length b + 1"
    and vals: "\<And>x y. x \<le> length a \<Longrightarrow> y \<le> length b \<Longrightarrow> written i j x y
                 \<Longrightarrow> dp ! x ! y = cell_value a b x y"
    using inv by (auto simp: dp_inv_def)
  have up: "dp ! i' ! j = cell_value a b i' j"
    using i j ij by (intro vals) (auto simp: written_def)
  have left: "dp ! i ! j' = cell_value a b i j'"
    using i j ij by (intro vals) (auto simp: written_def)
  have diag: "dp ! i' ! j' = cell_value a b i' j'"
    using i j ij by (intro vals) (auto simp: written_def)
  define v where "v = cell_value a b i j"
  have fc: "fill_cell a b i dp j = set_cell dp i j v"
    by (simp add: fill_cell_def v_def ij up [unfolded ij] left [unfolded ij] diag)
  have bi: "i < length dp" using i len by simp
  have bj: "j < length (dp ! i)" using rows [OF i(2)] j by simp
  show ?thesis
    unfolding dp_inv_def fc
  proof (intro conjI allI impI)
    show "length (set_cell dp i j v) = length a + 1"
      by (simp add: set_cell_length len)
  next
    fix x assume "x \<le> length a"
    then show "length (set_cell dp i j v ! x) = length b + 1"
      by (simp add: set_cell_row_length rows)
  next
    fix x y assume x: "x \<le> length a" and y: "y \<le> length b" and w: "written i (Suc j) x y"
    show "set_cell dp i j v ! x ! y = cell_value a b x y"
    proof (cases "x = i \<and> y = j")
      case True
      then show ?thesis by (simp add: set_cell_get [OF bi bj] v_def)
    next
      case False
      with w have "written i j x y" by (auto simp: written_def)
      with False x y show ?thesis by (auto simp: set_cell_get [OF bi bj] vals)
    qed
  qed
qed

lemma fill_row_prefix_inv:
  assumes "dp_inv a b dp i 1" and "1 \<le> i" and "i \<le> length a" and "k \<le> length b"
  shows "dp_inv a b (foldl (fill_cell a b i) dp [1..<Suc k]) i (Suc k)"
  using assms(4)
proof (induction k)
  case 0
  from assms(1) show ?case by simp
next
  case (Suc k)
  then have "dp_inv a b (foldl (fill_cell a b i) dp [1..<Suc k]) i (Suc k)" by simp
  from fill_cell_inv [OF this assms(2,3)] Suc.prems
  show ?case by simp
qed

lemma fill_row_inv:
  assumes "dp_inv a b dp i 1" and "1 \<le> i" and "i \<le> length a"
  shows "dp_inv a b (fill_row a b dp i) (Suc i) 1"
proof -
  have "dp_inv a b (fill_row a b dp i) i (Suc (length b))"
    using fill_row_prefix_inv [OF assms, of "length b"] by (simp add: fill_row_def)
  then have len: "length (fill_row a b dp i) = length a + 1"
    and rows: "\<forall>x \<le> length a. length (fill_row a b dp i ! x) = length b + 1"
    and vals: "\<And>x y. x \<le> length a \<Longrightarrow> y \<le> length b \<Longrightarrow> written i (Suc (length b)) x y
                 \<Longrightarrow> fill_row a b dp i ! x ! y = cell_value a b x y"
    by (auto simp: dp_inv_def)
  show ?thesis
    unfolding dp_inv_def
  proof (intro conjI allI impI)
    fix x y assume x: "x \<le> length a" and y: "y \<le> length b" and w: "written (Suc i) 1 x y"
    from w y have "written i (Suc (length b)) x y" by (auto simp: written_def)
    with x y show "fill_row a b dp i ! x ! y = cell_value a b x y" by (rule vals)
  qed (use len rows in auto)
qed

lemma fill_rows_inv:
  assumes "dp_inv a b dp 1 1" and "k \<le> length a"
  shows "dp_inv a b (foldl (fill_row a b) dp [1..<Suc k]) (Suc k) 1"
  using assms(2)
proof (induction k)
  case 0
  from assms(1) show ?case by simp
next
  case (Suc k)
  then have "dp_inv a b (foldl (fill_row a b) dp [1..<Suc k]) (Suc k) 1" by simp
  from fill_row_inv [OF this] Suc.prems show ?case by simp
qed

lemma init_inv:
  "dp_inv a b
     (foldl (\<lambda>dp j. set_cell dp 0 j j)
        (foldl (\<lambda>dp i. set_cell dp i 0 i) (replicate (length a + 1) (replicate (length b + 1) 0))
           [0..<length a + 1])
        [0..<length b + 1]) 1 1"
proof -
  define dp0 :: "nat list list" where "dp0 = replicate (length a + 1) (replicate (length b + 1) 0)"
  define dp1 where "dp1 = foldl (\<lambda>dp i. set_cell dp i 0 i) dp0 [0..<length a + 1]"
  define dp2 where "dp2 = foldl (\<lambda>dp j. set_cell dp 0 j j) dp1 [0..<length b + 1]"
  have l0: "length dp0 = length a + 1" and r0: "\<And>i. i < length dp0 \<Longrightarrow> length (dp0 ! i) = length b + 1"
    by (simp_all only: dp0_def length_replicate nth_replicate)
  have "length a + 1 \<le> length dp0" "\<forall>i < length dp0. 0 < length (dp0 ! i)"
    using l0 r0 by simp_all
  from init_rows [OF this]
  have l1: "length dp1 = length dp0" and r1: "\<And>i. length (dp1 ! i) = length (dp0 ! i)"
    and v1: "\<And>i j. i < length dp0 \<Longrightarrow> dp1 ! i ! j = (if j = 0 \<and> i < length a + 1 then i else dp0 ! i ! j)"
    by (simp_all add: Let_def dp1_def)
  have "0 < length dp1" "length b + 1 \<le> length (dp1 ! 0)"
    using l1 l0 r1 [of 0] r0 [of 0] by simp_all
  from init_cols [OF this]
  have l2: "length dp2 = length dp1" and r2: "\<And>i. length (dp2 ! i) = length (dp1 ! i)"
    and v2: "\<And>i j. dp2 ! i ! j = (if i = 0 \<and> j < length b + 1 then j else dp1 ! i ! j)"
    by (simp_all add: Let_def dp2_def)
  have "dp_inv a b dp2 1 1"
    unfolding dp_inv_def
  proof (intro conjI allI impI)
    show "length dp2 = length a + 1" by (simp add: l2 l1 l0)
  next
    fix i assume "i \<le> length a"
    then show "length (dp2 ! i) = length b + 1" by (simp add: r2 r1 r0 l0)
  next
    fix i j assume i: "i \<le> length a" and j: "j \<le> length b" and w: "written 1 1 i j"
    then have "i = 0 \<or> j = 0" by (auto simp: written_def)
    then show "dp2 ! i ! j = cell_value a b i j"
      using i j by (auto simp: v2 v1 l0 cell_value_0_right)
  qed
  then show ?thesis by (simp add: dp2_def dp1_def dp0_def)
qed

lemma levenshteinDistance_cell_value:
  "levenshteinDistance a b = cell_value a b (length a) (length b)"
proof (cases "length a = 0 \<or> length b = 0")
  case True
  then show ?thesis by (auto simp: levenshteinDistance_def Let_def cell_value_0_right)
next
  case False
  have "dp_inv a b
     (foldl (fill_row a b)
       (foldl (\<lambda>dp j. set_cell dp 0 j j)
          (foldl (\<lambda>dp i. set_cell dp i 0 i) (replicate (length a + 1) (replicate (length b + 1) 0))
             [0..<length a + 1])
          [0..<length b + 1]) [1..<Suc (length a)]) (Suc (length a)) 1"
    by (rule fill_rows_inv [OF init_inv]) simp
  then show ?thesis
    using False by (simp add: levenshteinDistance_def Let_def dp_inv_def written_def)
qed

lemma levenshteinDistance_sym: "levenshteinDistance a b = levenshteinDistance b a"
  by (simp add: levenshteinDistance_cell_value cell_value_sym [of a b])

lemma stringSimilarity_sym: "stringSimilarity a b = stringSimilarity b a"
  by (auto simp: stringSimilarity_def Let_def max.commute levenshteinDistance_sym [of a b])

lemma differsByTrackingOnly_sym: "differsByTrackingOnly p q = differsByTrackingOnly q p"
  by (auto simp: differsByTrackingOnly_def Let_def)

text \<open>
  C10. \<^verbatim>\<open>findSimilarity\<close> is symmetric in its two tabs: swapping them gives the same
  similar flag, the same score and the same reason, for every threshold.
\<close>

theorem findSimilarity_symmetric:
  "findSimilarity newURL t1 t2 threshold = findSimilarity newURL t2 t1 threshold"
proof (cases "parseUrl newURL (ToString (url t1))")
  case None
  then show ?thesis by (simp add: findSimilarity_def split: option.split)
next
  case p1: (Some p1)
  show ?thesis
  proof (cases "parseUrl newURL (ToString (url t2))")
    case None
    then show ?thesis by (simp add: findSimilarity_def split: option.split)
  next
    case p2: (Some p2)
    define sameHostname where "sameHostname \<longleftrightarrow> hostname p1 = hostname p2"
    define sameHost where "sameHost \<longleftrightarrow> strip_www (hostname p1) = strip_www (hostname p2)"
    define samePath where "samePath \<longleftrightarrow> pathname p1 = pathname p2"
    define sameParams where "sameParams \<longleftrightarrow> JSON_stringify (params p1) = JSON_stringify (params p2)"
    define sameHash where "sameHash \<longleftrightarrow> hash p1 = hash p2"
    define bothTitles where "bothTitles \<longleftrightarrow> truthy (title t1) \<and> truthy (title t2)"
    note tests = sameHostname_def sameHost_def samePath_def sameParams_def sameHash_def
      bothTitles_def
    have flipped:
      "hostname p2 = hostname p1 \<longleftrightarrow> sameHostname"
      "strip_www (hostname p2) = strip_www (hostname p1) \<longleftrightarrow> sameHost"
      "pathname p2 = pathname p1 \<longleftrightarrow> samePath"
      "JSON_stringify (params p2) = JSON_stringify (params p1) \<longleftrightarrow> sameParams"
      "hash p2 = hash p1 \<longleftrightarrow> sameHash"
      "truthy (title t2) \<and> truthy (title t1) \<longleftrightarrow> bothTitles"
      by (auto simp: tests)
    have s: "stringSimilarity (pathname p2) (pathname p1) = stringSimilarity (pathname p1) (pathname p2)"
      "stringSimilarity (ToString (title t2)) (ToString (title t1))
        = stringSimilarity (ToString (title t1)) (ToString (title t2))"
      "differsByTrackingOnly (params p2) (params p1) = differsByTrackingOnly (params p1) (params p2)"
      by (rule stringSimilarity_sym differsByTrackingOnly_sym)+
    show ?thesis
      unfolding findSimilarity_def p1 p2 prod.case option.case Let_def flipped s
      unfolding tests [symmetric]
      by (rule refl)
  qed
qed

subsection \<open>Raising the threshold\<close>

lemma findSimilarity_mono:
  assumes le: "t1 \<le> t2" and sim: "similar (findSimilarity newURL a b t2)"
  shows "similar (findSimilarity newURL a b t1)"
proof (cases "parseUrl newURL (ToString (url a))")
  case None
  with sim show ?thesis by (simp add: findSimilarity_def)
next
  case p1: (Some p1)
  show ?thesis
  proof (cases "parseUrl newURL (ToString (url b))")
    case None
    with sim p1 show ?thesis by (simp add: findSimilarity_def)
  next
    case p2: (Some p2)
    define sameHostname where "sameHostname \<longleftrightarrow> hostname p1 = hostname p2"
    define sameHost where "sameHost \<longleftrightarrow> strip_www (hostname p1) = strip_www (hostname p2)"
    define samePath where "samePath \<longleftrightarrow> pathname p1 = pathname p2"
    define sameParams where "sameParams \<longleftrightarrow> JSON_stringify (params p1) = JSON_stringify (params p2)"
    define sameHash where "sameHash \<longleftrightarrow> hash p1 = hash p2"
    define tracking where "tracking \<longleftrightarrow> differsByTrackingOnly (params p1) (params p2)"
    define pathSimilarity where "pathSimilarity = stringSimilarity (pathname p1) (pathname p2)"
    define titleScore where "titleScore =
      (if truthy (title a) \<and> truthy (title b)
       then stringSimilarity (ToString (title a)) (ToString (title b)) else 0)"
    note tests = sameHostname_def sameHost_def samePath_def sameParams_def sameHash_def
      tracking_def pathSimilarity_def titleScore_def
    from sim le show ?thesis
      unfolding findSimilarity_def p1 p2 prod.case option.case Let_def
      unfolding tests [symmetric]
      by (simp split: if_splits)
  qed
qed

lemma compare_pair_mono:
  assumes "t1 \<le> t2" and "fst st2 = fst st1" and "length (snd st2) \<le> length (snd st1)"
  shows "fst (compare_pair newURL t2 a st2 b) = fst (compare_pair newURL t1 a st1 b)
       \<and> length (snd (compare_pair newURL t2 a st2 b)) \<le> length (snd (compare_pair newURL t1 a st1 b))"
  using assms findSimilarity_mono [OF assms(1), of newURL a b]
  by (auto simp: compare_pair_def Let_def)

lemma compare_row_mono:
  assumes "t1 \<le> t2" and "fst st2 = fst st1" and "length (snd st2) \<le> length (snd st1)"
  shows "fst (foldl (compare_pair newURL t2 a) st2 bs) = fst (foldl (compare_pair newURL t1 a) st1 bs)
       \<and> length (snd (foldl (compare_pair newURL t2 a) st2 bs))
           \<le> length (snd (foldl (compare_pair newURL t1 a) st1 bs))"
  using assms(2,3)
proof (induction bs arbitrary: st1 st2)
  case Nil
  then show ?case by simp
next
  case (Cons b bs)
  from compare_pair_mono [OF assms(1) Cons.prems, of newURL a b]
  show ?case by (simp add: Cons.IH)
qed

lemma compare_all_mono:
  assumes "t1 \<le> t2" and "fst st2 = fst st1" and "length (snd st2) \<le> length (snd st1)"
  shows "fst (compare_all newURL t2 ts st2) = fst (compare_all newURL t1 ts st1)
       \<and> length (snd (compare_all newURL t2 ts st2)) \<le> length (snd (compare_all newURL t1 ts st1))"
  using assms(2,3)
proof (induction ts arbitrary: st1 st2)
  case Nil
  then show ?case by simp
next
  case (Cons a ts)
  from compare_row_mono [OF assms(1) Cons.prems, of newURL a ts]
  show ?case by (simp add: Cons.IH)
qed

lemma path_tabs_counts:
  "totalSimilar (analyzeTabs URL_model path_tabs 90) = 0
   \<and> totalSimilar (analyzeTabs URL_model path_tabs 70) = 1"
  by code_simp

text \<open>
  C4. Threshold monotonicity: for a fixed tab list, a higher threshold never yields a larger
  \<^verbatim>\<open>totalSimilar\<close>. It holds for all integer thresholds, so in particular on 0..100.
\<close>

theorem threshold_monotone:
  assumes "t1 \<le> t2"
  shows "totalSimilar (analyzeTabs newURL ts t2) \<le> totalSimilar (analyzeTabs newURL ts t1)"
  using compare_all_mono [OF assms, of "({}, [])" "({}, [])" newURL]
  by (simp add: analyzeTabs_def sorted_pairs_def Let_def split: prod.split)

theorem threshold_monotone_witness:
  "(70::int) \<le> 90
   \<and> totalSimilar (analyzeTabs URL_model path_tabs 90) \<le> totalSimilar (analyzeTabs URL_model path_tabs 70)
   \<and> totalSimilar (analyzeTabs URL_model path_tabs 90) = 0
   \<and> totalSimilar (analyzeTabs URL_model path_tabs 70) = 1"
proof (intro conjI)
  show "(70::int) \<le> 90" by simp
  show "totalSimilar (analyzeTabs URL_model path_tabs 90) \<le> totalSimilar (analyzeTabs URL_model path_tabs 70)"
    by (rule threshold_monotone) simp
qed (simp_all add: path_tabs_counts)

subsection \<open>Duplicate groups\<close>

lemma all_tabs_simps [simp]:
  "all_tabs [] = []"
  "all_tabs ((k, g) # m) = g @ all_tabs m"
  by (simp_all add: all_tabs_def)


lemma map_push_tabs: "set (all_tabs (map_push m k t)) = insert t (set (all_tabs m))"
proof (induction m)
  case Nil
  show ?case by simp
next
  case (Cons kg m)
  obtain k' g where kg: "kg = (k', g)" by (cases kg)
  from Cons.IH show ?case by (cases "k' = k") (auto simp: kg)
qed

lemma map_push_distinct:
  assumes "distinct (map tab_id (all_tabs m))"
    and "tab_id t \<notin> tab_id ` set (all_tabs m)"
  shows "distinct (map tab_id (all_tabs (map_push m k t)))"
  using assms
proof (induction m)
  case Nil
  then show ?case by simp
next
  case (Cons kg m)
  obtain k' g where kg: "kg = (k', g)" by (cases kg)
  show ?case
  proof (cases "k' = k")
    case True
    with Cons.prems kg show ?thesis by auto
  next
    case False
    have "distinct (map tab_id (all_tabs (map_push m k t)))"
      using Cons.prems kg by (intro Cons.IH) auto
    moreover have "tab_id ` set g \<inter> tab_id ` set (all_tabs (map_push m k t)) = {}"
      using Cons.prems kg unfolding map_push_tabs by auto
    ultimately show ?thesis
      using Cons.prems kg False by auto
  qed
qed


lemma push_all_distinct:
  assumes "distinct (map tab_id (all_tabs m @ ts))"
  shows "distinct (map tab_id (all_tabs
           (foldl (\<lambda>m t. case key t of None \<Rightarrow> m | Some k \<Rightarrow> map_push m k t) m ts)))"
  using assms
proof (induction ts arbitrary: m)
  case Nil
  then show ?case by simp
next
  case (Cons t ts)
  show ?case
  proof (cases "key t")
    case None
    with Cons.prems show ?thesis by (auto intro!: Cons.IH)
  next
    case (Some k)
    have d: "distinct (map tab_id (all_tabs (map_push m k t)))"
      using Cons.prems by (intro map_push_distinct) auto
    have "distinct (map tab_id (all_tabs (map_push m k t) @ ts))"
      using Cons.prems d by (auto simp: map_push_tabs)
    from Cons.IH [OF this] Some show ?thesis by simp
  qed
qed


lemma url_groups_as_push:
  "url_groups newURL ts =
     foldl (\<lambda>m t. case Some (normalizeUrl newURL (ToString (url t))) of None \<Rightarrow> m
                   | Some k \<Rightarrow> map_push m k t) [] ts"
  by (simp add: url_groups_def)

lemma url_groups_distinct:
  "distinct (map tab_id ts) \<Longrightarrow> distinct (map tab_id (all_tabs (url_groups newURL ts)))"
  unfolding url_groups_as_push by (rule push_all_distinct) simp

lemma google_groups_distinct:
  "distinct (map tab_id ts) \<Longrightarrow> distinct (map tab_id (all_tabs (google_groups newURL ts)))"
  unfolding google_groups_def by (rule push_all_distinct) simp




lemma all_tabs_distinct_member:
  "distinct (map tab_id (all_tabs m)) \<Longrightarrow> kg \<in> set m \<Longrightarrow> distinct (map tab_id (snd kg))"
  by (induction m) auto

lemma add_group_fst: "fst (add_group st key g) = fst st @ [\<lparr>normalizedUrl = key, tabs = g, count = length g\<rparr>]"
  by (simp add: add_group_def)

lemma add_group_snd: "snd (add_group st key g) = snd st \<union> tab_id ` set g"
  by (simp add: add_group_def)

lemma add_group_inv:
  assumes "group_inv st" and "distinct (map tab_id g)" and "snd st \<inter> tab_id ` set g = {}"
    and "1 < length g"
  shows "group_inv (add_group st key g)"
  using assms by (auto simp: group_inv_def add_group_fst add_group_snd group_ids_def)

lemma add_google_groups_Cons:
  "add_google_groups st ((k, g) # gs) =
     add_google_groups (if 1 < length g then add_group st k g else st) gs"
  by (simp add: add_google_groups_def)

lemma add_url_groups_Cons:
  "add_url_groups st ((k, g) # gs) =
     add_url_groups (if 1 < length (filter (\<lambda>t. tab_id t \<notin> snd st) g)
                     then add_group st k (filter (\<lambda>t. tab_id t \<notin> snd st) g) else st) gs"
  by (simp add: add_url_groups_def Let_def)

lemma add_google_groups_inv:
  assumes "group_inv st" and "distinct (map tab_id (all_tabs gs))"
    and "snd st \<inter> tab_id ` set (all_tabs gs) = {}"
  shows "group_inv (add_google_groups st gs)"
  using assms
proof (induction gs arbitrary: st)
  case Nil
  then show ?case by (simp add: add_google_groups_def)
next
  case (Cons kg gs)
  obtain k g where kg: "kg = (k, g)" by (cases kg)
  define st' where "st' = (if 1 < length g then add_group st k g else st)"
  have "group_inv st'"
    using Cons.prems kg unfolding st'_def by (auto intro!: add_group_inv)
  moreover have "distinct (map tab_id (all_tabs gs))"
    using Cons.prems kg by simp
  moreover have "snd st' \<inter> tab_id ` set (all_tabs gs) = {}"
    using Cons.prems kg unfolding st'_def by (auto simp: add_group_snd)
  ultimately have "group_inv (add_google_groups st' gs)"
    by (rule Cons.IH)
  then show ?case unfolding kg add_google_groups_Cons st'_def .
qed

lemma add_url_groups_inv:
  assumes "group_inv st" and "\<forall>kg \<in> set gs. distinct (map tab_id (snd kg))"
  shows "group_inv (add_url_groups st gs)"
  using assms
proof (induction gs arbitrary: st)
  case Nil
  then show ?case by (simp add: add_url_groups_def)
next
  case (Cons kg gs)
  obtain k g where kg: "kg = (k, g)" by (cases kg)
  define fg where "fg = filter (\<lambda>t. tab_id t \<notin> snd st) g"
  define st' where "st' = (if 1 < length fg then add_group st k fg else st)"
  have "distinct (map tab_id fg)"
    using Cons.prems(2) kg by (simp add: fg_def distinct_map_filter)
  moreover have "snd st \<inter> tab_id ` set fg = {}"
    by (auto simp: fg_def)
  ultimately have "group_inv st'"
    using Cons.prems(1) unfolding st'_def by (auto intro!: add_group_inv)
  moreover have "\<forall>kg \<in> set gs. distinct (map tab_id (snd kg))"
    using Cons.prems(2) by simp
  ultimately have "group_inv (add_url_groups st' gs)"
    by (rule Cons.IH)
  then show ?case unfolding kg add_url_groups_Cons st'_def fg_def .
qed

lemma duplicate_groups_inv:
  assumes "distinct (map tab_id ts)"
  shows "group_inv (duplicate_groups newURL ts)"
  unfolding duplicate_groups_def
proof (rule add_url_groups_inv)
  show "group_inv (add_google_groups ([], {}) (google_groups newURL ts))"
    by (rule add_google_groups_inv)
      (simp_all add: group_inv_def google_groups_distinct [OF assms])
  show "\<forall>kg \<in> set (url_groups newURL ts). distinct (map tab_id (snd kg))"
    using all_tabs_distinct_member [OF url_groups_distinct [OF assms]] by blast
qed

lemma distinct_concat_nth:
  "distinct (concat xss) \<Longrightarrow> i < j \<Longrightarrow> j < length xss \<Longrightarrow> set (xss ! i) \<inter> set (xss ! j) = {}"
proof (induction xss arbitrary: i j)
  case Nil
  then show ?case by simp
next
  case (Cons xs xss)
  obtain j' where j: "j = Suc j'" using Cons.prems(2) by (cases j) auto
  show ?case
  proof (cases i)
    case 0
    have "xss ! j' \<in> set xss" using Cons.prems(3) j by simp
    with Cons.prems(1) 0 j show ?thesis by auto
  next
    case (Suc i')
    with Cons.IH [of i' j'] Cons.prems j show ?thesis by simp
  qed
qed

lemma analyzeTabs_groups:
  "exactDuplicates (analyzeTabs newURL ts th) = fst (duplicate_groups newURL (filter valid_tab ts))"
  by (simp add: analyzeTabs_def Let_def split: prod.split)

lemma mixed_tabs_groups:
  "map normalizedUrl (exactDuplicates (analyzeTabs URL_model mixed_tabs 80)) = [''gdoc:doc:A'', ''http://h/a'']
   \<and> map group_ids (exactDuplicates (analyzeTabs URL_model mixed_tabs 80)) = [[1, 3], [2, 4]]"
  by code_simp

text \<open>
  C5. Group invariant: when the ids of the input tabs are unique, the id sets of any two
  distinct duplicate groups are disjoint, and every emitted group has \<^verbatim>\<open>count\<close> equal to
  the number of its tabs and greater than 1.
\<close>

theorem duplicate_groups_disjoint:
  assumes "distinct (map tab_id ts)"
  shows "(\<forall>i j. i < j \<and> j < length (exactDuplicates (analyzeTabs newURL ts th)) \<longrightarrow>
            set (group_ids (exactDuplicates (analyzeTabs newURL ts th) ! i))
            \<inter> set (group_ids (exactDuplicates (analyzeTabs newURL ts th) ! j)) = {})
       \<and> (\<forall>g \<in> set (exactDuplicates (analyzeTabs newURL ts th)).
            count g = length (tabs g) \<and> 1 < count g)"
proof -
  define G where "G = exactDuplicates (analyzeTabs newURL ts th)"
  have "distinct (map tab_id (filter valid_tab ts))"
    using assms by (rule distinct_map_filter)
  then have inv: "group_inv (duplicate_groups newURL (filter valid_tab ts))"
    by (rule duplicate_groups_inv)
  then have d: "distinct (concat (map group_ids G))"
    and c: "\<forall>g \<in> set G. count g = length (tabs g) \<and> 1 < count g"
    by (auto simp: group_inv_def G_def analyzeTabs_groups)
  have "set (group_ids (G ! i)) \<inter> set (group_ids (G ! j)) = {}" if "i < j" "j < length G" for i j
    using distinct_concat_nth [OF d, of i j] that by simp
  with c show ?thesis
    unfolding G_def by blast
qed

theorem duplicate_groups_disjoint_witness:
  "distinct (map tab_id mixed_tabs)
   \<and> set (group_ids (exactDuplicates (analyzeTabs URL_model mixed_tabs 80) ! 0))
       \<inter> set (group_ids (exactDuplicates (analyzeTabs URL_model mixed_tabs 80) ! 1)) = {}
   \<and> count (exactDuplicates (analyzeTabs URL_model mixed_tabs 80) ! 0)
       = length (tabs (exactDuplicates (analyzeTabs URL_model mixed_tabs 80) ! 0))
   \<and> 1 < count (exactDuplicates (analyzeTabs URL_model mixed_tabs 80) ! 0)
   \<and> map group_ids (exactDuplicates (analyzeTabs URL_model mixed_tabs 80)) = [[1, 3], [2, 4]]"
proof -
  define G where "G = exactDuplicates (analyzeTabs URL_model mixed_tabs 80)"
  have d: "distinct (map tab_id mixed_tabs)" by code_simp
  have ids: "map group_ids G = [[1, 3], [2, 4]]"
    using mixed_tabs_groups by (simp add: G_def)
  then have "length (map group_ids G) = 2" by simp
  then have len: "length G = 2" by simp
  then have mem: "G ! 0 \<in> set G" by simp
  note inv = duplicate_groups_disjoint [OF d, of URL_model 80, folded G_def]
  from inv len have "set (group_ids (G ! 0)) \<inter> set (group_ids (G ! 1)) = {}"
    by simp
  moreover from inv mem have "count (G ! 0) = length (tabs (G ! 0)) \<and> 1 < count (G ! 0)"
    by blast
  ultimately show ?thesis
    using d ids unfolding G_def by blast
qed

subsection \<open>Tabs whose url does not parse\<close>




























subsection \<open>Idempotence of normalization\<close>

lemma obj_insert_keys: "set (map fst (obj_insert obj k v)) = insert k (set (map fst obj))"
proof (induction obj)
  case Nil
  show ?case by simp
next
  case (Cons kv obj)
  obtain k' v' where kv: "kv = (k', v')" by (cases kv)
  from Cons.IH show ?case
    by (cases "key_before k k'") (simp_all add: kv insert_commute)
qed

lemma obj_insert_distinct:
  "distinct (map fst obj) \<Longrightarrow> k \<notin> set (map fst obj) \<Longrightarrow> distinct (map fst (obj_insert obj k v))"
proof (induction obj)
  case Nil
  then show ?case by simp
next
  case (Cons kv obj)
  obtain k' v' where kv: "kv = (k', v')" by (cases kv)
  from Cons obj_insert_keys [of obj k v] show ?case
    by (cases "key_before k k'") (auto simp: kv)
qed

lemma obj_define_distinct:
  assumes "distinct (map fst obj)"
  shows "distinct (map fst (obj_define obj k v))"
proof (cases "k \<in> set (map fst obj)")
  case True
  have "map fst (map (\<lambda>(k', v'). if k' = k then (k', v) else (k', v')) obj) = map fst obj"
    by (induction obj) auto
  with assms True show ?thesis by (simp add: obj_define_def del: map_map)
next
  case False
  with assms show ?thesis by (simp add: obj_define_def obj_insert_distinct)
qed

lemma fromEntries_distinct_aux:
  "distinct (map fst obj) \<Longrightarrow> distinct (map fst (foldl (\<lambda>obj (k, v). obj_define obj k v) obj es))"
  by (induction es arbitrary: obj) (auto simp: obj_define_distinct)

lemma fromEntries_distinct: "distinct (map fst (fromEntries es))"
  unfolding fromEntries_def by (rule fromEntries_distinct_aux) simp

lemma parseUrl_params_distinct: "parseUrl newURL u = Some p \<Longrightarrow> distinct (map fst (params p))"
  by (auto simp: parseUrl_def fromEntries_distinct split: option.splits)

lemma same_entries_sorted_keys:
  assumes "distinct (map fst ps)" and "distinct (map fst qs)" and "set qs = set ps"
  shows "sort (map fst qs) = sort (map fst ps)"
proof (rule sorted_distinct_set_unique)
  show "set (sort (map fst qs)) = set (sort (map fst ps))"
    using assms(3) by simp
qed (simp_all add: assms)

lemma same_entries_get:
  assumes "distinct (map fst ps)" and "distinct (map fst qs)" and "set qs = set ps"
  shows "obj_get qs k = obj_get ps k"
  using map_of_inject_set [OF assms(2,1)] assms(3) by (simp add: obj_get_def)

text \<open>
  C9, as stated, fails: \<^verbatim>\<open>https://www.www.example.com/\<close> parses, its normalized form
  \<^verbatim>\<open>https://www.example.com/\<close> parses to the same shape, and normalizing that strips a
  second \<^verbatim>\<open>www.\<close>.
\<close>

theorem normalizeUrl_not_idempotent:
  "same_shape URL_model ''https://www.www.example.com/''
   \<and> normalizeUrl URL_model ''https://www.www.example.com/'' = ''https://www.example.com/''
   \<and> normalizeUrl URL_model ''https://www.example.com/'' = ''https://example.com/''"
  by code_simp

text \<open>
  C9, amended: when in addition the host of \<open>u\<close>, with its leading \<^verbatim>\<open>www.\<close> stripped, does
  not begin with \<^verbatim>\<open>www.\<close> again, normalizing twice gives what normalizing once gives.
\<close>

theorem normalizeUrl_idempotent:
  assumes p: "parseUrl newURL u = Some p" and shape: "same_shape newURL u"
    and www: "\<not> prefix ''www.'' (strip_www (hostname p))"
  shows "normalizeUrl newURL (normalizeUrl newURL u) = normalizeUrl newURL u"
proof -
  from shape p obtain q where q: "parseUrl newURL (normalizeUrl newURL u) = Some q"
    and same: "protocol q = protocol p" "hostname q = strip_www (hostname p)" "port q = port p"
      "pathname q = pathname p" "set (params q) = set (params p)"
    by (auto simp: same_shape_def split: option.splits)
  have dp: "distinct (map fst (params p))"
    by (rule parseUrl_params_distinct [OF p])
  have dq: "distinct (map fst (params q))"
    by (rule parseUrl_params_distinct [OF q])
  have keys: "sort (map fst (params q)) = sort (map fst (params p))"
    using dp dq same(5) by (rule same_entries_sorted_keys)
  have gets: "\<And>k. obj_get (params q) k = obj_get (params p) k"
    using dp dq same(5) by (rule same_entries_get)
  have host: "strip_www (hostname q) = strip_www (hostname p)"
    using www same(2) by (simp add: strip_www_def)
  have "normalizeUrl newURL (normalizeUrl newURL u) =
      (let hostname' = strip_www (hostname q);
           sortedParams = join ''&''
             (map (\<lambda>k. k @ ''='' @ obj_get (params q) k) (sort (map fst (params q))));
           query = (if sortedParams \<noteq> [] then ''?'' @ sortedParams else [])
       in protocol q @ ''//'' @ hostname'
          @ (if port q \<noteq> [] then '':'' @ port q else [])
          @ pathname q @ query)"
    by (subst normalizeUrl_def) (simp add: q)
  also have "\<dots> = normalizeUrl newURL u"
    unfolding host keys gets same(1,3,4) by (simp add: normalizeUrl_def p)
  finally show ?thesis .
qed

theorem normalizeUrl_idempotent_witness:
  "same_shape URL_model ''https://www.example.com/a/?b=2&a=1''
   \<and> normalizeUrl URL_model (normalizeUrl URL_model ''https://www.example.com/a/?b=2&a=1'')
       = normalizeUrl URL_model ''https://www.example.com/a/?b=2&a=1''
   \<and> normalizeUrl URL_model ''https://www.example.com/a/?b=2&a=1'' = ''https://example.com/a?a=1&b=2''"
proof (intro conjI)
  have p: "parseUrl URL_model ''https://www.example.com/a/?b=2&a=1'' =
      Some \<lparr>protocol = ''https:'', hostname = ''www.example.com'', port = [], pathname = ''/a'',
            search = ''?b=2&a=1'', hash = [], params = [(''b'', ''2''), (''a'', ''1'')],
            original = ''https://www.example.com/a/?b=2&a=1''\<rparr>"
    by code_simp
  show s: "same_shape URL_model ''https://www.example.com/a/?b=2&a=1''"
    by code_simp
  have w: "\<not> prefix ''www.'' (strip_www ''www.example.com'')"
    by code_simp
  show "normalizeUrl URL_model (normalizeUrl URL_model ''https://www.example.com/a/?b=2&a=1'')
       = normalizeUrl URL_model ''https://www.example.com/a/?b=2&a=1''"
    by (rule normalizeUrl_idempotent [OF p s]) (simp add: w)
  show "normalizeUrl URL_model ''https://www.example.com/a/?b=2&a=1'' = ''https://example.com/a?a=1&b=2''"
    by code_simp
qed

end
